theory Spec2Isabelle
  imports Main "HOL-Library.Word" "HOL-Library.Log_Nat" "HOL-Library.Multiset"
begin

unbundle bit_operations_syntax

section \<open>C strings and characters\<close>

text \<open>
  A C string is modelled by the list of its bytes before the terminating NUL; a
  \<^verbatim>\<open>char *\<close> that may be NULL is a \<open>string option\<close>.
\<close>

definition NUL :: char where "NUL = CHR 0x00"
definition dquote :: char where "dquote = CHR 0x22"
definition bslash :: char where "bslash = CHR 0x5C"

definition tolower :: "char \<Rightarrow> char" where
  "tolower c = (let n = (of_char c :: nat) in if 65 \<le> n \<and> n \<le> 90 then char_of (n + 32) else c)"

text \<open>\<^verbatim>\<open>strcmp\<close>: the difference of the first two bytes that differ (as unsigned
  char), 0 when there is none.\<close>

fun strcmp :: "string \<Rightarrow> string \<Rightarrow> int" where
  "strcmp [] [] = 0"
| "strcmp [] (d # ds) = - int (of_char d)"
| "strcmp (c # cs) [] = int (of_char c)"
| "strcmp (c # cs) (d # ds) = (if c = d then strcmp cs ds else int (of_char c) - int (of_char d))"

fun case_insensitive_loop :: "string \<Rightarrow> string \<Rightarrow> int" where
  "case_insensitive_loop [] [] = 0"
| "case_insensitive_loop [] (d # ds) = - int (of_char (tolower d))"
| "case_insensitive_loop (c # cs) [] = int (of_char (tolower c))"
| "case_insensitive_loop (c # cs) (d # ds) =
     (if tolower c = tolower d then case_insensitive_loop cs ds
      else int (of_char (tolower c)) - int (of_char (tolower d)))"

definition case_insensitive_strcmp :: "string option \<Rightarrow> string option \<Rightarrow> int" where
  "case_insensitive_strcmp s1 s2 =
     (case (s1, s2) of
        (Some a, Some b) \<Rightarrow> case_insensitive_loop a b
      | _ \<Rightarrow> 1)"

section \<open>Doubles\<close>

text \<open>
  A C \<^verbatim>\<open>double\<close> is an IEEE-754 binary64 value: a finite value is the rational it
  denotes, and every arithmetic operation rounds its exact result to the nearest
  representable value, ties to even (\<open>rnd\<close>). The two zeros are one value.
\<close>

datatype double = Finite rat | PosInf | NegInf | NaN

definition pow2 :: "int \<Rightarrow> rat" where
  "pow2 k = (if 0 \<le> k then 2 ^ nat k else 1 / 2 ^ nat (- k))"

text \<open>\<open>ilog2 a\<close> is the integer \<open>e\<close> with \<open>2^e \<le> a < 2^(e+1)\<close>, for \<open>a > 0\<close>.\<close>

definition ilog2 :: "rat \<Rightarrow> int" where
  "ilog2 a = (let (p, q) = quotient_of a; d = bitlen p - bitlen q
              in if pow2 d \<le> a then d else d - 1)"

definition round_half_even :: "rat \<Rightarrow> int" where
  "round_half_even x =
     (let f = \<lfloor>x\<rfloor>; r = x - of_int f
      in if r < 1 / 2 then f else if 1 / 2 < r then f + 1 else if even f then f else f + 1)"

definition rnd :: "rat \<Rightarrow> double" where
  "rnd q =
     (if q = 0 then Finite 0
      else let a = \<bar>q\<bar>;
               e = max (ilog2 a) (- 1022);
               u = pow2 (e - 52);
               r = of_int (round_half_even (a / u)) * u
           in if pow2 1024 \<le> r then (if 0 < q then PosInf else NegInf)
              else Finite (if 0 < q then r else - r))"

definition DBL_EPSILON :: double where "DBL_EPSILON = Finite (pow2 (- 52))"
definition INT_MAX :: int where "INT_MAX = 2147483647"
definition INT_MIN :: int where "INT_MIN = - 2147483648"

fun isnan :: "double \<Rightarrow> bool" where
  "isnan NaN = True"
| "isnan _ = False"

fun isinf :: "double \<Rightarrow> bool" where
  "isinf PosInf = True"
| "isinf NegInf = True"
| "isinf _ = False"

fun d_neg :: "double \<Rightarrow> double" where
  "d_neg (Finite a) = Finite (- a)"
| "d_neg PosInf = NegInf"
| "d_neg NegInf = PosInf"
| "d_neg NaN = NaN"

fun fabs :: "double \<Rightarrow> double" where
  "fabs (Finite a) = Finite \<bar>a\<bar>"
| "fabs PosInf = PosInf"
| "fabs NegInf = PosInf"
| "fabs NaN = NaN"

fun d_add :: "double \<Rightarrow> double \<Rightarrow> double" where
  "d_add (Finite a) (Finite b) = rnd (a + b)"
| "d_add NaN _ = NaN"
| "d_add _ NaN = NaN"
| "d_add PosInf NegInf = NaN"
| "d_add NegInf PosInf = NaN"
| "d_add PosInf _ = PosInf"
| "d_add NegInf _ = NegInf"
| "d_add _ PosInf = PosInf"
| "d_add _ NegInf = NegInf"

definition d_sub :: "double \<Rightarrow> double \<Rightarrow> double" where
  "d_sub a b = d_add a (d_neg b)"

text \<open>The sign of a value: 1, 0 or -1 (a NaN has none).\<close>

fun d_sgn :: "double \<Rightarrow> int" where
  "d_sgn (Finite a) = (if 0 < a then 1 else if a < 0 then - 1 else 0)"
| "d_sgn PosInf = 1"
| "d_sgn NegInf = - 1"
| "d_sgn NaN = 0"

definition d_mul :: "double \<Rightarrow> double \<Rightarrow> double" where
  "d_mul a b =
     (case (a, b) of
        (Finite x, Finite y) \<Rightarrow> rnd (x * y)
      | _ \<Rightarrow>
          if isnan a \<or> isnan b \<or> d_sgn a * d_sgn b = 0 then NaN
          else if 0 < d_sgn a * d_sgn b then PosInf else NegInf)"

text \<open>Division; the library never divides by zero (its only divisor is a power of ten),
  so a zero divisor is given the result of dividing by +0.\<close>

fun d_div :: "double \<Rightarrow> double \<Rightarrow> double" where
  "d_div NaN _ = NaN"
| "d_div _ NaN = NaN"
| "d_div (Finite a) (Finite b) =
     (if b = 0 then (if a = 0 then NaN else if 0 < a then PosInf else NegInf) else rnd (a / b))"
| "d_div (Finite a) _ = Finite 0"
| "d_div a (Finite b) =
     (if 0 \<le> d_sgn a * (if b < 0 then - 1 else 1) then PosInf else NegInf)"
| "d_div _ _ = NaN"

fun d_le :: "double \<Rightarrow> double \<Rightarrow> bool" where
  "d_le NaN _ = False"
| "d_le _ NaN = False"
| "d_le (Finite a) (Finite b) = (a \<le> b)"
| "d_le NegInf _ = True"
| "d_le _ PosInf = True"
| "d_le _ _ = False"

definition d_ge :: "double \<Rightarrow> double \<Rightarrow> bool" where "d_ge a b = d_le b a"
definition d_eq :: "double \<Rightarrow> double \<Rightarrow> bool" where "d_eq a b = (d_le a b \<and> d_le b a)"
definition d_gt :: "double \<Rightarrow> double \<Rightarrow> bool" where "d_gt a b = (d_le b a \<and> \<not> d_le a b)"

text \<open>Conversions between \<^verbatim>\<open>int\<close> and \<^verbatim>\<open>double\<close>. The cast \<^verbatim>\<open>(int)d\<close> truncates
  towards zero; the library guards it by a range check, so it is only reached out of
  range for a NaN, where C leaves it undefined and x86-64 yields \<^verbatim>\<open>INT_MIN\<close>.\<close>

definition d_of_int :: "int \<Rightarrow> double" where
  "d_of_int n = rnd (of_int n)"

fun d_to_int :: "double \<Rightarrow> int" where
  "d_to_int (Finite a) = (if 0 \<le> a then \<lfloor>a\<rfloor> else - \<lfloor>- a\<rfloor>)"
| "d_to_int _ = INT_MIN"

text \<open>The saturating integer projection that \<^verbatim>\<open>parse_number\<close>,
  \<^verbatim>\<open>stb_json_createnumber\<close> and \<^verbatim>\<open>stb_json_setnumberhelper\<close> each write out.\<close>

definition saturate_int :: "double \<Rightarrow> int" where
  "saturate_int number =
     (if d_ge number (d_of_int INT_MAX) then INT_MAX
      else if d_le number (d_of_int INT_MIN) then INT_MIN
      else d_to_int number)"

definition compare_double :: "double \<Rightarrow> double \<Rightarrow> bool" where
  "compare_double a b =
     (let maxVal = (if d_gt (fabs a) (fabs b) then fabs a else fabs b)
      in d_le (fabs (d_sub a b)) (d_mul maxVal DBL_EPSILON))"

text \<open>The double just below 1: \<open>1 - 2^-53\<close>, written \<^verbatim>\<open>0.99999999999999989\<close>.\<close>

definition below_one :: double where "below_one = Finite (1 - 1 / 2 ^ 53)"

section \<open>The value tree\<close>

text \<open>
  \<^verbatim>\<open>struct stb_json\<close>, with the sibling chain \<^verbatim>\<open>child\<close>/\<^verbatim>\<open>next\<close>/\<^verbatim>\<open>prev\<close> of a node
  read as the list of its children. A pointer to a node that may be NULL is a
  \<open>json option\<close>. (The pointer structure itself is modelled in the last section.)
\<close>

datatype json = Json (type: int) (valuestring: "string option") (valueint: int)
  (valuedouble: double) (string: "string option") (child: "json list")

definition STB_JSON_INVALID :: int where "STB_JSON_INVALID = 0"
definition STB_JSON_FALSE :: int where "STB_JSON_FALSE = 1"
definition STB_JSON_TRUE :: int where "STB_JSON_TRUE = 2"
definition STB_JSON_NULL :: int where "STB_JSON_NULL = 4"
definition STB_JSON_NUMBER :: int where "STB_JSON_NUMBER = 8"
definition STB_JSON_STRING :: int where "STB_JSON_STRING = 16"
definition STB_JSON_ARRAY :: int where "STB_JSON_ARRAY = 32"
definition STB_JSON_OBJECT :: int where "STB_JSON_OBJECT = 64"
definition STB_JSON_RAW :: int where "STB_JSON_RAW = 128"
definition STB_JSON_IS_REFERENCE :: int where "STB_JSON_IS_REFERENCE = 256"
definition STB_JSON_STRING_IS_CONST :: int where "STB_JSON_STRING_IS_CONST = 512"
definition STB_JSON_NESTING_LIMIT :: nat where "STB_JSON_NESTING_LIMIT = 1000"
definition STB_JSON_CIRCULAR_LIMIT :: nat where "STB_JSON_CIRCULAR_LIMIT = 10000"

lemmas kind_defs = STB_JSON_INVALID_def STB_JSON_FALSE_def STB_JSON_TRUE_def
  STB_JSON_NULL_def STB_JSON_NUMBER_def STB_JSON_STRING_def STB_JSON_ARRAY_def
  STB_JSON_OBJECT_def STB_JSON_RAW_def STB_JSON_IS_REFERENCE_def STB_JSON_STRING_IS_CONST_def

text \<open>\<^verbatim>\<open>stb_json_new_item\<close>: a zeroed node.\<close>

definition stb_json_new_item :: json where
  "stb_json_new_item = Json 0 None 0 (Finite 0) None []"

subsection \<open>Accessors\<close>

definition stb_json_isinvalid :: "json option \<Rightarrow> bool" where
  "stb_json_isinvalid item =
     (case item of None \<Rightarrow> False | Some i \<Rightarrow> type i AND 0xFF = STB_JSON_INVALID)"

definition stb_json_isfalse :: "json option \<Rightarrow> bool" where
  "stb_json_isfalse item =
     (case item of None \<Rightarrow> False | Some i \<Rightarrow> type i AND 0xFF = STB_JSON_FALSE)"

definition stb_json_istrue :: "json option \<Rightarrow> bool" where
  "stb_json_istrue item =
     (case item of None \<Rightarrow> False | Some i \<Rightarrow> type i AND 0xFF = STB_JSON_TRUE)"

definition stb_json_isbool :: "json option \<Rightarrow> bool" where
  "stb_json_isbool item =
     (case item of None \<Rightarrow> False
      | Some i \<Rightarrow> type i AND (STB_JSON_FALSE OR STB_JSON_TRUE) \<noteq> 0)"

definition stb_json_isnull :: "json option \<Rightarrow> bool" where
  "stb_json_isnull item =
     (case item of None \<Rightarrow> False | Some i \<Rightarrow> type i AND 0xFF = STB_JSON_NULL)"

definition stb_json_isnumber :: "json option \<Rightarrow> bool" where
  "stb_json_isnumber item =
     (case item of None \<Rightarrow> False | Some i \<Rightarrow> type i AND 0xFF = STB_JSON_NUMBER)"

definition stb_json_isstring :: "json option \<Rightarrow> bool" where
  "stb_json_isstring item =
     (case item of None \<Rightarrow> False | Some i \<Rightarrow> type i AND 0xFF = STB_JSON_STRING)"

definition stb_json_isarray :: "json option \<Rightarrow> bool" where
  "stb_json_isarray item =
     (case item of None \<Rightarrow> False | Some i \<Rightarrow> type i AND 0xFF = STB_JSON_ARRAY)"

definition stb_json_isobject :: "json option \<Rightarrow> bool" where
  "stb_json_isobject item =
     (case item of None \<Rightarrow> False | Some i \<Rightarrow> type i AND 0xFF = STB_JSON_OBJECT)"

definition stb_json_israw :: "json option \<Rightarrow> bool" where
  "stb_json_israw item =
     (case item of None \<Rightarrow> False | Some i \<Rightarrow> type i AND 0xFF = STB_JSON_RAW)"


definition stb_json_getnumbervalue :: "json option \<Rightarrow> double" where
  "stb_json_getnumbervalue item =
     (if \<not> stb_json_isnumber item then NaN
      else case item of None \<Rightarrow> NaN | Some i \<Rightarrow> valuedouble i)"

definition stb_json_getnumberint :: "json option \<Rightarrow> int" where
  "stb_json_getnumberint item =
     (if \<not> stb_json_isnumber item then 0
      else case item of None \<Rightarrow> 0 | Some i \<Rightarrow> valueint i)"

definition stb_json_getnumberdouble :: "json option \<Rightarrow> double" where
  "stb_json_getnumberdouble item =
     (if \<not> stb_json_isnumber item then NaN
      else case item of None \<Rightarrow> NaN | Some i \<Rightarrow> valuedouble i)"

text \<open>The child count is a \<^verbatim>\<open>size_t\<close> cast to \<^verbatim>\<open>int\<close>: it wraps at 32 bits.\<close>

definition stb_json_getarraysize :: "json option \<Rightarrow> int" where
  "stb_json_getarraysize array =
     (case array of None \<Rightarrow> 0
      | Some a \<Rightarrow> signed_take_bit 31 (int (length (child a))))"

fun walk_children :: "json list \<Rightarrow> nat \<Rightarrow> json option" where
  "walk_children [] n = None"
| "walk_children (c # cs) n = (if 0 < n then walk_children cs (n - 1) else Some c)"

definition get_array_item :: "json option \<Rightarrow> nat \<Rightarrow> json option" where
  "get_array_item array index =
     walk_children (case array of None \<Rightarrow> [] | Some a \<Rightarrow> child a) index"

definition stb_json_getarrayitem :: "json option \<Rightarrow> int \<Rightarrow> json option" where
  "stb_json_getarrayitem array index =
     (if index < 0 then None else get_array_item array (nat index))"

subsection \<open>Number nodes\<close>

definition stb_json_createnumber :: "double \<Rightarrow> json" where
  "stb_json_createnumber num =
     Json STB_JSON_NUMBER None (saturate_int num) num None []"

subsection \<open>The stand-alone comparator\<close>

text \<open>
  \<^verbatim>\<open>stb_json_compare\<close>. Its shortcut \<^verbatim>\<open>if (a == b) return true\<close> compares addresses,
  so the model is told whether its two arguments are the same node (\<open>same\<close>); trees
  own their children, so the children of two different nodes are different nodes.
  The result is \<open>None\<close> where the C code passes a NULL key to \<^verbatim>\<open>strcmp\<close>.
\<close>

fun compare_nodes :: "bool \<Rightarrow> bool \<Rightarrow> json \<Rightarrow> json \<Rightarrow> bool option"
  and compare_array_elements :: "bool \<Rightarrow> json list \<Rightarrow> json list \<Rightarrow> bool option"
  and compare_object_elements :: "bool \<Rightarrow> json list \<Rightarrow> json list \<Rightarrow> bool option"
where
  "compare_nodes case_sensitive same (Json ta vsa via vda ka ca) (Json tb vsb vib vdb kb cb) =
     (if ta AND 0xFF \<noteq> tb AND 0xFF then Some False
      else if same then Some True
      else if ta AND 0xFF = STB_JSON_FALSE \<or> ta AND 0xFF = STB_JSON_TRUE
              \<or> ta AND 0xFF = STB_JSON_NULL then Some True
      else if ta AND 0xFF = STB_JSON_NUMBER then Some (compare_double vda vdb)
      else if ta AND 0xFF = STB_JSON_STRING \<or> ta AND 0xFF = STB_JSON_RAW then
        (case (vsa, vsb) of
           (Some x, Some y) \<Rightarrow> Some (strcmp x y = 0)
         | _ \<Rightarrow> Some False)
      else if ta AND 0xFF = STB_JSON_ARRAY then compare_array_elements case_sensitive ca cb
      else if ta AND 0xFF = STB_JSON_OBJECT then compare_object_elements case_sensitive ca cb
      else Some False)"
| "compare_array_elements case_sensitive [] bs = Some (bs = [])"
| "compare_array_elements case_sensitive (a # as) [] = Some False"
| "compare_array_elements case_sensitive (a # as) (b # bs) =
     (case compare_nodes case_sensitive False a b of
        None \<Rightarrow> None
      | Some False \<Rightarrow> Some False
      | Some True \<Rightarrow> compare_array_elements case_sensitive as bs)"
| "compare_object_elements case_sensitive [] bs = Some (bs = [])"
| "compare_object_elements case_sensitive (a # as) [] = Some False"
| "compare_object_elements case_sensitive (a # as) (b # bs) =
     (if case_sensitive \<and> (string a = None \<or> string b = None) then None
      else if (if case_sensitive then strcmp (the (string a)) (the (string b)) \<noteq> 0
               else case_insensitive_strcmp (string a) (string b) \<noteq> 0) then Some False
      else case compare_nodes case_sensitive False a b of
             None \<Rightarrow> None
           | Some False \<Rightarrow> Some False
           | Some True \<Rightarrow> compare_object_elements case_sensitive as bs)"

definition stb_json_compare :: "bool \<Rightarrow> json option \<Rightarrow> json option \<Rightarrow> bool \<Rightarrow> bool option" where
  "stb_json_compare same a b case_sensitive =
     (case (a, b) of
        (Some x, Some y) \<Rightarrow> compare_nodes case_sensitive same x y
      | _ \<Rightarrow> Some False)"

subsection \<open>Setting the fields of a node\<close>

definition set_type :: "int \<Rightarrow> json \<Rightarrow> json" where
  "set_type t j = Json t (valuestring j) (valueint j) (valuedouble j) (string j) (child j)"
definition set_valuestring :: "string option \<Rightarrow> json \<Rightarrow> json" where
  "set_valuestring s j = Json (type j) s (valueint j) (valuedouble j) (string j) (child j)"
definition set_valueint :: "int \<Rightarrow> json \<Rightarrow> json" where
  "set_valueint n j = Json (type j) (valuestring j) n (valuedouble j) (string j) (child j)"
definition set_valuedouble :: "double \<Rightarrow> json \<Rightarrow> json" where
  "set_valuedouble d j = Json (type j) (valuestring j) (valueint j) d (string j) (child j)"
definition set_string :: "string option \<Rightarrow> json \<Rightarrow> json" where
  "set_string k j = Json (type j) (valuestring j) (valueint j) (valuedouble j) k (child j)"
definition set_child :: "json list \<Rightarrow> json \<Rightarrow> json" where
  "set_child cs j = Json (type j) (valuestring j) (valueint j) (valuedouble j) (string j) cs"

section \<open>The parser\<close>

text \<open>
  \<^verbatim>\<open>parse_buffer\<close>: the bytes of the input (\<^verbatim>\<open>length\<close> is the length of \<open>content\<close>),
  the cursor and the nesting depth. The cursor is a \<^verbatim>\<open>size_t\<close>; the code steps it back
  below 0 in one place and forwards again right after, so it is an \<open>int\<close> here and an
  access is in range from 0 up to the length, as it is with the wrap-around.
\<close>

record parse_buffer =
  content :: string
  offset :: int
  depth :: nat

datatype 'a outcome = Exhausted | Failed | Parsed 'a

text \<open>\<open>byte_at b i\<close> is \<^verbatim>\<open>buffer_at_offset(b)[i]\<close> where \<^verbatim>\<open>can_access_at_index(b, i)\<close>
  holds, and \<open>None\<close> where it does not.\<close>

definition can_access_at_index :: "parse_buffer \<Rightarrow> nat \<Rightarrow> bool" where
  "can_access_at_index b i =
     (0 \<le> offset b + int i \<and> offset b + int i < int (length (content b)))"

definition can_read :: "parse_buffer \<Rightarrow> nat \<Rightarrow> bool" where
  "can_read b n = (offset b + int n \<le> int (length (content b)))"

definition byte_at :: "parse_buffer \<Rightarrow> nat \<Rightarrow> char option" where
  "byte_at b i =
     (if can_access_at_index b i then Some (content b ! nat (offset b + int i)) else None)"

text \<open>The bytes from the cursor to the end of the buffer.\<close>

definition remaining :: "parse_buffer \<Rightarrow> string" where
  "remaining b = (if 0 \<le> offset b then drop (nat (offset b)) (content b) else [])"

definition advance :: "int \<Rightarrow> parse_buffer \<Rightarrow> parse_buffer" where
  "advance n b = b\<lparr>offset := offset b + n\<rparr>"

subsection \<open>Numbers\<close>

definition is_digit :: "char \<Rightarrow> bool" where
  "is_digit c = (48 \<le> (of_char c :: nat) \<and> (of_char c :: nat) \<le> 57)"

definition digit_of :: "char \<Rightarrow> int" where
  "digit_of c = int (of_char c) - 48"

text \<open>\<^verbatim>\<open>pow(10.0, n)\<close> for an integer \<open>n\<close>, taken as correctly rounded. C does not
  require this of \<^verbatim>\<open>pow\<close>, and a library may return the neighbouring double (at
  \<^verbatim>\<open>1e23\<close>, for one): what is proved of a number with an exponent that is not zero holds
  for a library whose \<^verbatim>\<open>pow\<close> is correctly rounded there.\<close>

definition pow10 :: "int \<Rightarrow> double" where
  "pow10 n = rnd (if 0 \<le> n then 10 ^ nat n else 1 / 10 ^ nat (- n))"

fun strtod_integer :: "double \<Rightarrow> string \<Rightarrow> double \<times> string" where
  "strtod_integer v [] = (v, [])"
| "strtod_integer v (c # cs) =
     (if is_digit c then strtod_integer (d_add (d_mul v (Finite 10)) (d_of_int (digit_of c))) cs
      else (v, c # cs))"

fun strtod_fraction :: "double \<Rightarrow> double \<Rightarrow> string \<Rightarrow> double \<times> double \<times> string" where
  "strtod_fraction f dv [] = (f, dv, [])"
| "strtod_fraction f dv (c # cs) =
     (if is_digit c then
        strtod_fraction (d_add (d_mul f (Finite 10)) (d_of_int (digit_of c))) (d_mul dv (Finite 10)) cs
      else (f, dv, c # cs))"

text \<open>The exponent is an \<^verbatim>\<open>int\<close>; its arithmetic wraps at 32 bits.\<close>

fun strtod_exponent :: "int \<Rightarrow> string \<Rightarrow> int \<times> string" where
  "strtod_exponent e [] = (e, [])"
| "strtod_exponent e (c # cs) =
     (if is_digit c then strtod_exponent (signed_take_bit 31 (e * 10 + digit_of c)) cs
      else (e, c # cs))"

text \<open>\<^verbatim>\<open>stb_json_strtod\<close> on a C string: the double, and how many bytes \<^verbatim>\<open>endptr\<close> is
  past the start.\<close>

definition stb_json_strtod :: "string \<Rightarrow> double \<times> nat" where
  "stb_json_strtod nptr =
     (let (sign, p1) =
            (if take 1 nptr = ''-'' then (Finite (- 1), drop 1 nptr)
             else if take 1 nptr = ''+'' then (Finite 1, drop 1 nptr)
             else (Finite 1, nptr));
          (v, p2) = strtod_integer (Finite 0) p1;
          (fraction, frac_divisor, p3) =
            (if take 1 p2 = ''.'' then strtod_fraction (Finite 0) (Finite 1) (drop 1 p2)
             else (Finite 0, Finite 1, p2));
          (exp_sign, exponent, p4) =
            (if take 1 p3 = ''e'' \<or> take 1 p3 = ''E'' then
               (let (es, q) =
                      (if take 1 (drop 1 p3) = ''-'' then (- 1, drop 2 p3)
                       else if take 1 (drop 1 p3) = ''+'' then (1, drop 2 p3)
                       else (1, drop 1 p3));
                    (ex, r) = strtod_exponent 0 q
                in (es, ex, r))
             else (1, 0, p3));
          v1 = d_add v (d_div fraction frac_divisor);
          v2 = (if exponent \<noteq> 0 then d_mul v1 (pow10 (signed_take_bit 31 (exp_sign * exponent)))
                else v1)
      in (d_mul sign v2, length nptr - length p4))"

definition is_number_char :: "char \<Rightarrow> bool" where
  "is_number_char c =
     (is_digit c \<or> c = CHR ''+'' \<or> c = CHR ''-'' \<or> c = CHR ''e'' \<or> c = CHR ''E'' \<or> c = CHR ''.'')"

definition parse_number :: "json \<Rightarrow> parse_buffer \<Rightarrow> (json \<times> parse_buffer) option" where
  "parse_number item b =
     (let number_c_string = takeWhile is_number_char (remaining b)
      in if number_c_string = [] then None
         else let (number, after_end) = stb_json_strtod number_c_string
              in if after_end = 0 then None
                 else Some (set_type STB_JSON_NUMBER
                              (set_valueint (saturate_int number) (set_valuedouble number item)),
                            advance (int after_end) b))"

subsection \<open>Strings\<close>

text \<open>\<^verbatim>\<open>parse_hex4\<close>: four hexadecimal digits; 0 when one of them is not a digit.\<close>

definition hex_digit :: "char \<Rightarrow> nat option" where
  "hex_digit c =
     (let n = (of_char c :: nat)
      in if 48 \<le> n \<and> n \<le> 57 then Some (n - 48)
         else if 65 \<le> n \<and> n \<le> 70 then Some (10 + n - 65)
         else if 97 \<le> n \<and> n \<le> 102 then Some (10 + n - 97)
         else None)"

fun parse_hex4_loop :: "nat \<Rightarrow> string \<Rightarrow> nat" where
  "parse_hex4_loop h [] = h"
| "parse_hex4_loop h (c # cs) =
     (case hex_digit c of
        None \<Rightarrow> 0
      | Some d \<Rightarrow> if cs = [] then h + d else parse_hex4_loop (push_bit 4 (h + d)) cs)"

definition parse_hex4 :: "string \<Rightarrow> nat" where
  "parse_hex4 input = (if length input < 4 then 0 else parse_hex4_loop 0 (take 4 input))"

text \<open>\<^verbatim>\<open>utf16_to_utf8\<close>, on the bytes from the backslash of a \<^verbatim>\<open>\u\<close> escape up to
  \<^verbatim>\<open>input_end\<close>: the number of bytes consumed and the UTF-8 bytes written, \<open>None\<close> where
  the code returns 0.\<close>

definition byte :: "nat \<Rightarrow> char" where
  "byte n = char_of (n mod 256)"

definition utf16_to_utf8 :: "string \<Rightarrow> (nat \<times> string) option" where
  "utf16_to_utf8 input =
     (if length input < 6 then None
      else let first_code = parse_hex4 (drop 2 input)
           in if first_code = 0 then None
              else if 0xD800 \<le> first_code \<and> first_code \<le> 0xDBFF then
                (if length input < 12 then None
                 else if input ! 6 \<noteq> bslash \<or> input ! 7 \<noteq> CHR ''u'' then None
                 else let second_code = parse_hex4 (drop 8 input)
                      in if second_code < 0xDC00 \<or> 0xDFFF < second_code then None
                         else let codepoint = 0x10000 + (push_bit 10 (first_code AND 0x3FF)
                                                OR (second_code AND 0x3FF))
                              in Some (12, [byte (0xF0 OR drop_bit 18 codepoint),
                                            byte (0x80 OR (drop_bit 12 codepoint AND 0x3F)),
                                            byte (0x80 OR (drop_bit 6 codepoint AND 0x3F)),
                                            byte (0x80 OR (codepoint AND 0x3F))]))
              else if first_code < 0x80 then Some (6, [byte first_code])
              else if first_code < 0x800 then
                Some (6, [byte (0xC0 OR drop_bit 6 first_code), byte (0x80 OR (first_code AND 0x3F))])
              else Some (6, [byte (0xE0 OR drop_bit 12 first_code),
                             byte (0x80 OR (drop_bit 6 first_code AND 0x3F)),
                             byte (0x80 OR (first_code AND 0x3F))]))"


text \<open>
  Modelled from the spec: \<^verbatim>\<open>parse_string\<close>, which \<^verbatim>\<open>parse_value\<close> and \<^verbatim>\<open>parse_object\<close>
  call and whose definition is not in the repository's files. As section 4.1 of the
  spec words it: a string is delimited by double quotes; the escapes
  \<^verbatim>\<open>\" \\ \/ \b \f \n \r \t\<close> map to their ASCII values; \<^verbatim>\<open>\uXXXX\<close> goes through
  \<^verbatim>\<open>utf16_to_utf8\<close> (which is in the files) and fails the parse where that returns 0;
  every other byte is copied as it is. A string that the buffer ends before closing,
  and an escape the list does not name, fail the parse.
\<close>

fun string_end :: "string \<Rightarrow> nat option" where
  "string_end [] = None"
| "string_end (c # cs) =
     (if c = dquote then Some 0
      else if c = bslash then
        (case cs of [] \<Rightarrow> None | d # ds \<Rightarrow> map_option (\<lambda>n. n + 2) (string_end ds))
      else map_option Suc (string_end cs))"

definition escape_value :: "char \<Rightarrow> char option" where
  "escape_value d =
     (if d = CHR ''b'' then Some (CHR 0x08)
      else if d = CHR ''f'' then Some (CHR 0x0C)
      else if d = CHR ''n'' then Some (CHR 0x0A)
      else if d = CHR ''r'' then Some (CHR 0x0D)
      else if d = CHR ''t'' then Some (CHR 0x09)
      else if d = dquote \<or> d = bslash \<or> d = CHR ''/'' then Some d
      else None)"

lemma utf16_to_utf8_consumed: "utf16_to_utf8 input = Some (n, out) \<Longrightarrow> 0 < n \<and> n \<le> length input"
  by (auto simp: utf16_to_utf8_def Let_def split: if_splits)

function decode_string :: "string \<Rightarrow> string option" where
  "decode_string [] = Some []"
| "decode_string (c # cs) =
     (if c \<noteq> bslash then map_option (\<lambda>r. c # r) (decode_string cs)
      else case cs of
             [] \<Rightarrow> None
           | d # ds \<Rightarrow>
               if d = CHR ''u'' then
                 (case utf16_to_utf8 (c # cs) of
                    None \<Rightarrow> None
                  | Some (n, out) \<Rightarrow> map_option (\<lambda>r. out @ r) (decode_string (drop n (c # cs))))
               else (case escape_value d of
                       None \<Rightarrow> None
                     | Some v \<Rightarrow> map_option (\<lambda>r. v # r) (decode_string ds)))"
  by pat_completeness auto
termination
proof (relation "measure length", goal_cases)
  case 1
  show ?case by simp
next
  case (2 c cs)
  then show ?case by simp
next
  case (3 c cs d ds x2 n out)
  then show ?case using utf16_to_utf8_consumed [of "c # cs" n out] by auto
next
  case (4 c cs d ds v)
  then show ?case by simp
qed

definition parse_string :: "json \<Rightarrow> parse_buffer \<Rightarrow> (json \<times> parse_buffer) option" where
  "parse_string item b =
     (if byte_at b 0 \<noteq> Some dquote then None
      else let input = drop 1 (remaining b)
           in case string_end input of
                None \<Rightarrow> None
              | Some n \<Rightarrow>
                  (case decode_string (take n input) of
                     None \<Rightarrow> None
                   | Some s \<Rightarrow>
                       Some (set_type STB_JSON_STRING
                               (set_valuestring (Some (takeWhile (\<lambda>c. c \<noteq> NUL) s)) item),
                             advance (int n + 2) b)))"

subsection \<open>Values, arrays and objects\<close>

function buffer_skip_whitespace :: "parse_buffer \<Rightarrow> parse_buffer" where
  "buffer_skip_whitespace b =
     (case byte_at b 0 of
        Some c \<Rightarrow>
          if (of_char c :: nat) \<le> 32 then buffer_skip_whitespace (advance 1 b)
          else b
      | None \<Rightarrow> if offset b = int (length (content b)) then advance (- 1) b else b)"
  by pat_completeness auto
termination
  by (relation "measure (\<lambda>b. nat (int (length (content b)) - offset b))")
    (auto simp: byte_at_def can_access_at_index_def advance_def split: if_splits)

declare buffer_skip_whitespace.simps [simp del]

definition skip_utf8_bom :: "parse_buffer \<Rightarrow> parse_buffer option" where
  "skip_utf8_bom b =
     (if offset b \<noteq> 0 then None
      else if can_access_at_index b 4
              \<and> map (byte_at b) [0, 1, 2] = [Some (CHR 0xEF), Some (CHR 0xBB), Some (CHR 0xBF)]
           then Some (advance 3 b)
           else Some b)"

text \<open>\<^verbatim>\<open>can_read(b, n) && strncmp(buffer_at_offset(b), lit, n) == 0\<close>, for a literal of
  \<open>n\<close> bytes.\<close>

definition reads_literal :: "parse_buffer \<Rightarrow> string \<Rightarrow> bool" where
  "reads_literal b lit =
     (can_read b (length lit) \<and> map (byte_at b) [0..<length lit] = map Some lit)"

text \<open>
  The three mutually recursive parsers, and the two \<^verbatim>\<open>do ... while\<close> loops. The first
  argument bounds the number of nested calls: \<open>Exhausted\<close> is the answer when it runs
  out, \<open>Failed\<close> is the C function returning \<^verbatim>\<open>false\<close>. The loops carry the children
  parsed so far, in order.
\<close>

fun parse_value :: "nat \<Rightarrow> json \<Rightarrow> parse_buffer \<Rightarrow> (json \<times> parse_buffer) outcome"
  and parse_array :: "nat \<Rightarrow> json \<Rightarrow> parse_buffer \<Rightarrow> (json \<times> parse_buffer) outcome"
  and parse_array_loop :: "nat \<Rightarrow> json list \<Rightarrow> parse_buffer \<Rightarrow> (json list \<times> parse_buffer) outcome"
  and parse_object :: "nat \<Rightarrow> json \<Rightarrow> parse_buffer \<Rightarrow> (json \<times> parse_buffer) outcome"
  and parse_object_loop :: "nat \<Rightarrow> json list \<Rightarrow> parse_buffer \<Rightarrow> (json list \<times> parse_buffer) outcome"
where
  "parse_value 0 item b = Exhausted"
| "parse_value (Suc fuel) item b =
     (if reads_literal b ''null'' then Parsed (set_type STB_JSON_NULL item, advance 4 b)
      else if reads_literal b ''false'' then Parsed (set_type STB_JSON_FALSE item, advance 5 b)
      else if reads_literal b ''true'' then
        Parsed (set_valueint 1 (set_type STB_JSON_TRUE item), advance 4 b)
      else if byte_at b 0 = Some dquote then
        (case parse_string item b of None \<Rightarrow> Failed | Some r \<Rightarrow> Parsed r)
      else if (case byte_at b 0 of None \<Rightarrow> False | Some c \<Rightarrow> c = CHR ''-'' \<or> is_digit c) then
        (case parse_number item b of None \<Rightarrow> Failed | Some r \<Rightarrow> Parsed r)
      else if byte_at b 0 = Some (CHR ''['') then parse_array fuel item b
      else if byte_at b 0 = Some (CHR ''{'') then parse_object fuel item b
      else Failed)"
| "parse_array 0 item b = Exhausted"
| "parse_array (Suc fuel) item b =
     (if STB_JSON_NESTING_LIMIT \<le> depth b then Failed
      else let b1 = b\<lparr>depth := depth b + 1\<rparr>
           in if byte_at b1 0 \<noteq> Some (CHR ''['') then Failed
              else let b2 = buffer_skip_whitespace (advance 1 b1)
                   in if byte_at b2 0 = Some (CHR '']'') then
                        Parsed (set_child [] (set_type STB_JSON_ARRAY item),
                                advance 1 (b2\<lparr>depth := depth b2 - 1\<rparr>))
                      else if byte_at b2 0 = None then Failed
                      else case parse_array_loop fuel [] (advance (- 1) b2) of
                             Exhausted \<Rightarrow> Exhausted
                           | Failed \<Rightarrow> Failed
                           | Parsed (items, b3) \<Rightarrow>
                               if byte_at b3 0 \<noteq> Some (CHR '']'') then Failed
                               else Parsed (set_child items (set_type STB_JSON_ARRAY item),
                                            advance 1 (b3\<lparr>depth := depth b3 - 1\<rparr>)))"
| "parse_array_loop 0 items b = Exhausted"
| "parse_array_loop (Suc fuel) items b =
     (case parse_value fuel stb_json_new_item (buffer_skip_whitespace (advance 1 b)) of
        Exhausted \<Rightarrow> Exhausted
      | Failed \<Rightarrow> Failed
      | Parsed (current_item, b1) \<Rightarrow>
          (let b2 = buffer_skip_whitespace b1
           in if byte_at b2 0 = Some (CHR '','') then parse_array_loop fuel (items @ [current_item]) b2
              else Parsed (items @ [current_item], b2)))"
| "parse_object 0 item b = Exhausted"
| "parse_object (Suc fuel) item b =
     (if STB_JSON_NESTING_LIMIT \<le> depth b then Failed
      else let b1 = b\<lparr>depth := depth b + 1\<rparr>
           in if byte_at b1 0 \<noteq> Some (CHR ''{'') then Failed
              else let b2 = buffer_skip_whitespace (advance 1 b1)
                   in if byte_at b2 0 = Some (CHR ''}'') then
                        Parsed (set_child [] (set_type STB_JSON_OBJECT item),
                                advance 1 (b2\<lparr>depth := depth b2 - 1\<rparr>))
                      else if byte_at b2 0 = None then Failed
                      else case parse_object_loop fuel [] (advance (- 1) b2) of
                             Exhausted \<Rightarrow> Exhausted
                           | Failed \<Rightarrow> Failed
                           | Parsed (items, b3) \<Rightarrow>
                               if byte_at b3 0 \<noteq> Some (CHR ''}'') then Failed
                               else Parsed (set_child items (set_type STB_JSON_OBJECT item),
                                            advance 1 (b3\<lparr>depth := depth b3 - 1\<rparr>)))"
| "parse_object_loop 0 items b = Exhausted"
| "parse_object_loop (Suc fuel) items b =
     (if byte_at b 1 = None then Failed
      else case parse_string stb_json_new_item (buffer_skip_whitespace (advance 1 b)) of
             None \<Rightarrow> Failed
           | Some (key_item, b1) \<Rightarrow>
               (let b2 = buffer_skip_whitespace b1;
                    current_item = set_valuestring None (set_string (valuestring key_item) key_item)
                in if byte_at b2 0 \<noteq> Some (CHR '':'') then Failed
                   else case parse_value fuel current_item (buffer_skip_whitespace (advance 1 b2)) of
                          Exhausted \<Rightarrow> Exhausted
                        | Failed \<Rightarrow> Failed
                        | Parsed (current_item', b3) \<Rightarrow>
                            (let b4 = buffer_skip_whitespace b3
                             in if byte_at b4 0 = Some (CHR '','') then
                                  parse_object_loop fuel (items @ [current_item']) b4
                                else Parsed (items @ [current_item'], b4))))"

text \<open>\<^verbatim>\<open>stb_json_parse_withlengthopts\<close> on a non-NULL buffer of \<open>length v\<close> bytes: the tree,
  and the cursor where parsing ended.\<close>

definition parse_fuel :: "string \<Rightarrow> nat" where
  "parse_fuel v = 3 * length v + 3 * STB_JSON_NESTING_LIMIT + 3"

definition stb_json_parse_withlengthopts :: "string \<Rightarrow> bool \<Rightarrow> (json \<times> int) outcome" where
  "stb_json_parse_withlengthopts v require_null_terminated =
     (if length v = 0 then Failed
      else case skip_utf8_bom \<lparr>content = v, offset = 0, depth = 0\<rparr> of
             None \<Rightarrow> Failed
           | Some b0 \<Rightarrow>
               (case parse_value (parse_fuel v) stb_json_new_item (buffer_skip_whitespace b0) of
                  Exhausted \<Rightarrow> Exhausted
                | Failed \<Rightarrow> Failed
                | Parsed (item, b1) \<Rightarrow>
                    if require_null_terminated then
                      (let b2 = buffer_skip_whitespace b1
                       in if int (length v) \<le> offset b2 \<or> byte_at b2 0 \<noteq> Some NUL then Failed
                          else Parsed (item, offset b2))
                    else Parsed (item, offset b1)))"

text \<open>\<^verbatim>\<open>stb_json_parse\<close> on a C string: the buffer is the string and its terminating NUL.\<close>

definition stb_json_parse :: "string \<Rightarrow> json outcome" where
  "stb_json_parse s =
     (case stb_json_parse_withlengthopts (s @ [NUL]) False of
        Exhausted \<Rightarrow> Exhausted
      | Failed \<Rightarrow> Failed
      | Parsed (item, e) \<Rightarrow> Parsed item)"


section \<open>The serializer\<close>

text \<open>
  The C library's conversions that \<^verbatim>\<open>print_number\<close> calls: \<^verbatim>\<open>sprintf\<close> with
  \<^verbatim>\<open>"%1.15g"\<close> and \<^verbatim>\<open>"%1.17g"\<close>, and \<^verbatim>\<open>sscanf\<close> with \<^verbatim>\<open>"%lg"\<close> (\<open>None\<close> when it
  converts nothing). They are parameters of the serializer.
\<close>

record libc =
  sprintf_g :: "nat \<Rightarrow> double \<Rightarrow> string"
  sscanf_lg :: "string \<Rightarrow> double option"

text \<open>\<^verbatim>\<open>sprintf\<close> with \<^verbatim>\<open>"%d"\<close>: the decimal digits, after a minus sign for a negative
  number.\<close>

fun decimal_digits :: "nat \<Rightarrow> string" where
  "decimal_digits n =
     (if n < 10 then [char_of (48 + n)] else decimal_digits (n div 10) @ [char_of (48 + n mod 10)])"

declare decimal_digits.simps [simp del]

definition sprintf_d :: "int \<Rightarrow> string" where
  "sprintf_d n = (if n < 0 then CHR ''-'' # decimal_digits (nat (- n)) else decimal_digits (nat n))"

text \<open>
  The growable output buffer is the string written so far: each function returns the
  bytes it appends, and \<open>None\<close> where the C function returns \<^verbatim>\<open>false\<close>. Allocation is
  taken to succeed, and the cap of \<^verbatim>\<open>INT_MAX\<close> bytes is not modelled.
\<close>

definition print_number :: "libc \<Rightarrow> json \<Rightarrow> string option" where
  "print_number L item =
     (let d = valuedouble item;
          number_buffer =
            (if isnan d \<or> isinf d then ''null''
             else if d_eq d (d_of_int (valueint item)) then sprintf_d (valueint item)
             else let s = sprintf_g L 15 d
                  in if (case sscanf_lg L s of None \<Rightarrow> True | Some test \<Rightarrow> \<not> compare_double test d)
                     then sprintf_g L 17 d
                     else s)
      in if 25 < length number_buffer then None else Some number_buffer)"

definition hex_char :: "nat \<Rightarrow> char" where
  "hex_char n = (if n < 10 then char_of (48 + n) else char_of (87 + n))"

definition escape_char :: "char \<Rightarrow> string" where
  "escape_char c =
     (if 31 < (of_char c :: nat) \<and> c \<noteq> dquote \<and> c \<noteq> bslash then [c]
      else bslash #
        (if c = bslash then [bslash]
         else if c = dquote then [dquote]
         else if c = CHR 0x08 then ''b''
         else if c = CHR 0x0C then ''f''
         else if c = CHR 0x0A then ''n''
         else if c = CHR 0x0D then ''r''
         else if c = CHR 0x09 then ''t''
         else [CHR ''u'', CHR ''0'', CHR ''0'', hex_char ((of_char c :: nat) div 16),
               hex_char ((of_char c :: nat) mod 16)]))"

definition print_string_ptr :: "string option \<Rightarrow> string" where
  "print_string_ptr input =
     (case input of
        None \<Rightarrow> [dquote, dquote]
      | Some s \<Rightarrow> dquote # concat (map escape_char s) @ [dquote])"

definition print_string :: "json \<Rightarrow> string" where
  "print_string item = print_string_ptr (valuestring item)"

text \<open>\<open>format\<close> and \<open>level\<close> are the fields \<^verbatim>\<open>format\<close> and \<^verbatim>\<open>depth\<close> of \<^verbatim>\<open>printbuffer\<close>.\<close>

fun print_value :: "libc \<Rightarrow> bool \<Rightarrow> nat \<Rightarrow> json \<Rightarrow> string option"
  and print_array_elements :: "libc \<Rightarrow> bool \<Rightarrow> nat \<Rightarrow> json list \<Rightarrow> string option"
  and print_object_members :: "libc \<Rightarrow> bool \<Rightarrow> nat \<Rightarrow> json list \<Rightarrow> string option"
where
  "print_value L format level (Json t vs vi vd k cs) =
     (if t AND 0xFF = STB_JSON_NULL then Some ''null''
      else if t AND 0xFF = STB_JSON_FALSE then Some ''false''
      else if t AND 0xFF = STB_JSON_TRUE then Some ''true''
      else if t AND 0xFF = STB_JSON_NUMBER then print_number L (Json t vs vi vd k cs)
      else if t AND 0xFF = STB_JSON_RAW then vs
      else if t AND 0xFF = STB_JSON_STRING then Some (print_string (Json t vs vi vd k cs))
      else if t AND 0xFF = STB_JSON_ARRAY then
        map_option (\<lambda>r. ''['' @ r @ '']'') (print_array_elements L format (level + 1) cs)
      else if t AND 0xFF = STB_JSON_OBJECT then
        map_option (\<lambda>r. ''{'' @ (if format then [CHR 0x0A] else []) @ r
                        @ (if format then replicate level (CHR 0x09) else []) @ ''}'')
          (print_object_members L format (level + 1) cs)
      else None)"
| "print_array_elements L format level [] = Some []"
| "print_array_elements L format level (c # cs) =
     (case print_value L format level c of
        None \<Rightarrow> None
      | Some r \<Rightarrow>
          map_option (\<lambda>rs. r @ (if cs \<noteq> [] then (if format then '', '' else '','') else []) @ rs)
            (print_array_elements L format level cs))"
| "print_object_members L format level [] = Some []"
| "print_object_members L format level (c # cs) =
     (case print_value L format level c of
        None \<Rightarrow> None
      | Some r \<Rightarrow>
          map_option (\<lambda>rs. (if format then replicate level (CHR 0x09) else [])
                           @ print_string_ptr (string c) @ '':'' @ (if format then [CHR 0x09] else [])
                           @ r @ (if cs \<noteq> [] then '','' else []) @ (if format then [CHR 0x0A] else [])
                           @ rs)
            (print_object_members L format level cs))"

definition print :: "libc \<Rightarrow> json option \<Rightarrow> bool \<Rightarrow> string option" where
  "print L item format = (case item of None \<Rightarrow> None | Some i \<Rightarrow> print_value L format 0 i)"

definition stb_json_print :: "libc \<Rightarrow> json option \<Rightarrow> string option" where
  "stb_json_print L item = print L item True"

definition stb_json_print_unformatted :: "libc \<Rightarrow> json option \<Rightarrow> string option" where
  "stb_json_print_unformatted L item = print L item False"

section \<open>The minifier\<close>

text \<open>
  \<^verbatim>\<open>stb_json_minify\<close> rewrites its buffer in place with a read cursor and a write
  cursor that never overtakes it, so the bytes still to be read are the caller's. The
  functions below take the bytes from the read cursor to the terminating NUL and
  return what is written; \<open>None\<close> is a read past the terminator.
\<close>

fun skip_to_newline :: "string \<Rightarrow> string" where
  "skip_to_newline [] = []"
| "skip_to_newline (c # cs) = (if c = CHR 0x0A then cs else skip_to_newline cs)"

definition skip_oneline_comment :: "string \<Rightarrow> string" where
  "skip_oneline_comment s = skip_to_newline (drop 2 s)"

fun skip_to_comment_end :: "string \<Rightarrow> string" where
  "skip_to_comment_end [] = []"
| "skip_to_comment_end (c # cs) =
     (if c = CHR ''*'' \<and> take 1 cs = ''/'' then drop 1 cs else skip_to_comment_end cs)"

definition skip_multiline_comment :: "string \<Rightarrow> string" where
  "skip_multiline_comment s = skip_to_comment_end (drop 2 s)"

text \<open>The \<^verbatim>\<open>for\<close> loop of \<^verbatim>\<open>minify_string\<close>, from the byte after the opening quote:
  the rest of the input and the bytes written. After a backslash the next byte is
  copied; when that byte is a quote the read cursor is advanced once in the body and
  once more by the loop's increment.\<close>

fun minify_string_loop :: "string \<Rightarrow> (string \<times> string) option" where
  "minify_string_loop [] = Some ([], [])"
| "minify_string_loop (c # cs) =
     (if c = dquote then Some (cs, [dquote])
      else if c = bslash then
        (case cs of
           [] \<Rightarrow> None
         | d # ds \<Rightarrow>
             if d = dquote then
               (case ds of
                  [] \<Rightarrow> None
                | e # es \<Rightarrow>
                    map_option (\<lambda>(r, out). (r, bslash # d # out)) (minify_string_loop es))
             else map_option (\<lambda>(r, out). (r, bslash # d # out)) (minify_string_loop ds))
      else map_option (\<lambda>(r, out). (r, c # out)) (minify_string_loop cs))"

definition minify_string :: "string \<Rightarrow> (string \<times> string) option" where
  "minify_string s =
     (case s of
        [] \<Rightarrow> None
      | q # cs \<Rightarrow> map_option (\<lambda>(r, out). (r, q # out)) (minify_string_loop cs))"

lemma skip_to_newline_length: "length (skip_to_newline s) \<le> length s"
  by (induction s) auto

lemma skip_to_comment_end_length: "length (skip_to_comment_end s) \<le> length s"
  by (induction s) auto

lemma minify_string_loop_length:
  "minify_string_loop s = Some (r, out) \<Longrightarrow> length r \<le> length s"
proof (induction s arbitrary: r out rule: minify_string_loop.induct)
  case 1
  then show ?case by simp
next
  case (2 c cs)
  then show ?case
    by (fastforce split: if_splits list.splits)
qed

function minify_loop :: "string \<Rightarrow> string option" where
  "minify_loop [] = Some []"
| "minify_loop (c # cs) =
     (if c = CHR '' '' \<or> c = CHR 0x09 \<or> c = CHR 0x0D \<or> c = CHR 0x0A then minify_loop cs
      else if c = CHR ''/'' then
        (if take 1 cs = ''/'' then minify_loop (skip_oneline_comment (c # cs))
         else if take 1 cs = ''*'' then minify_loop (skip_multiline_comment (c # cs))
         else minify_loop cs)
      else if c = dquote then
        (case minify_string (c # cs) of
           None \<Rightarrow> None
         | Some (r, out) \<Rightarrow> map_option (\<lambda>t. out @ t) (minify_loop r))
      else map_option (\<lambda>t. c # t) (minify_loop cs))"
  by pat_completeness auto
termination
proof (relation "measure length", goal_cases)
  case 1
  show ?case by simp
next
  case (2 c cs)
  then show ?case by simp
next
  case (3 c cs)
  have "length (skip_to_newline (drop 1 cs)) \<le> length cs"
    using skip_to_newline_length [of "drop 1 cs"] by simp
  then show ?case by (simp add: skip_oneline_comment_def)
next
  case (4 c cs)
  have "length (skip_to_comment_end (drop 1 cs)) \<le> length cs"
    using skip_to_comment_end_length [of "drop 1 cs"] by simp
  then show ?case by (simp add: skip_multiline_comment_def)
next
  case (5 c cs)
  then show ?case by simp
next
  case (6 c cs x2 x y)
  then show ?case
    by (auto simp: minify_string_def dest!: minify_string_loop_length)
next
  case (7 c cs)
  then show ?case by simp
qed

text \<open>\<^verbatim>\<open>stb_json_minify\<close> on a non-NULL buffer holding the C string \<open>json\<close>: the C
  string it holds afterwards.\<close>

definition stb_json_minify :: "string \<Rightarrow> string option" where
  "stb_json_minify json = minify_loop json"

section \<open>The child list as pointers\<close>

text \<open>
  The three link fields of \<^verbatim>\<open>struct stb_json\<close> and the functions that rewire them, over
  an explicit store: an address holds a cell, and a pointer is an address or NULL. The
  result is \<open>None\<close> where the C code would follow a NULL pointer.
\<close>

type_synonym addr = nat

record cell =
  next_p :: "addr option"
  prev_p :: "addr option"
  child_p :: "addr option"

type_synonym heap = "addr \<Rightarrow> cell"

definition suffix_object :: "heap \<Rightarrow> addr \<Rightarrow> addr \<Rightarrow> heap" where
  "suffix_object h prev item =
     (let h1 = h(prev := (h prev)\<lparr>next_p := Some item\<rparr>)
      in h1(item := (h1 item)\<lparr>prev_p := Some prev\<rparr>))"

definition add_item_to_array :: "heap \<Rightarrow> addr option \<Rightarrow> addr option \<Rightarrow> (bool \<times> heap) option" where
  "add_item_to_array h array item =
     (case (array, item) of
        (Some a, Some i) \<Rightarrow>
          if a = i then Some (False, h)
          else (case child_p (h a) of
                  None \<Rightarrow>
                    (let h1 = h(a := (h a)\<lparr>child_p := Some i\<rparr>)
                     in Some (True, h1(i := (h1 i)\<lparr>prev_p := Some i\<rparr>)))
                | Some ch \<Rightarrow>
                    (case prev_p (h ch) of
                       None \<Rightarrow> Some (True, h)
                     | Some p \<Rightarrow>
                         (let h1 = suffix_object h p i
                          in case child_p (h1 a) of
                               None \<Rightarrow> None
                             | Some c \<Rightarrow> Some (True, h1(c := (h1 c)\<lparr>prev_p := Some i\<rparr>)))))
      | _ \<Rightarrow> Some (False, h))"

text \<open>The loop \<^verbatim>\<open>while (child && which > 0) { child = child->next; which--; }\<close>.\<close>

fun walk_next :: "heap \<Rightarrow> addr option \<Rightarrow> nat \<Rightarrow> addr option" where
  "walk_next h None which = None"
| "walk_next h (Some c) 0 = Some c"
| "walk_next h (Some c) (Suc which) = walk_next h (next_p (h c)) which"

definition insert_item_in_array :: "heap \<Rightarrow> addr \<Rightarrow> nat \<Rightarrow> addr \<Rightarrow> (bool \<times> heap) option" where
  "insert_item_in_array h array which newitem =
     (case walk_next h (child_p (h array)) which of
        None \<Rightarrow> add_item_to_array h (Some array) (Some newitem)
      | Some ch \<Rightarrow>
          (let h1 = h(newitem := (h newitem)\<lparr>next_p := Some ch\<rparr>);
               h2 = h1(newitem := (h1 newitem)\<lparr>prev_p := prev_p (h1 ch)\<rparr>);
               h3 = h2(ch := (h2 ch)\<lparr>prev_p := Some newitem\<rparr>)
           in if Some ch = child_p (h3 array)
              then Some (True, h3(array := (h3 array)\<lparr>child_p := Some newitem\<rparr>))
              else (case prev_p (h3 newitem) of
                      None \<Rightarrow> None
                    | Some p \<Rightarrow> Some (True, h3(p := (h3 p)\<lparr>next_p := Some newitem\<rparr>)))))"

definition stb_json_detachitemviapointer ::
    "heap \<Rightarrow> addr option \<Rightarrow> addr option \<Rightarrow> (addr option \<times> heap) option" where
  "stb_json_detachitemviapointer h parent item =
     (case (parent, item) of
        (Some p, Some i) \<Rightarrow>
          if Some i \<noteq> child_p (h p) \<and> prev_p (h i) = None then Some (None, h)
          else
            (case (if Some i \<noteq> child_p (h p)
                   then (case prev_p (h i) of
                           None \<Rightarrow> None
                         | Some q \<Rightarrow> Some (h(q := (h q)\<lparr>next_p := next_p (h i)\<rparr>)))
                   else Some h) of
               None \<Rightarrow> None
             | Some h1 \<Rightarrow>
                 (let h2 = (case next_p (h1 i) of
                              None \<Rightarrow> h1
                            | Some n \<Rightarrow> h1(n := (h1 n)\<lparr>prev_p := prev_p (h1 i)\<rparr>))
                  in case (if Some i = child_p (h2 p)
                           then Some (h2(p := (h2 p)\<lparr>child_p := next_p (h2 i)\<rparr>))
                           else if next_p (h2 i) = None
                           then (case child_p (h2 p) of
                                   None \<Rightarrow> None
                                 | Some c \<Rightarrow> Some (h2(c := (h2 c)\<lparr>prev_p := prev_p (h2 i)\<rparr>)))
                           else Some h2) of
                       None \<Rightarrow> None
                     | Some h3 \<Rightarrow>
                         Some (Some i, h3(i := (h3 i)\<lparr>prev_p := None, next_p := None\<rparr>))))
      | _ \<Rightarrow> Some (None, h))"

text \<open>
  The shape of a child list. \<open>chain h p xs\<close>: following \<^verbatim>\<open>next\<close> from \<open>p\<close> visits exactly
  the nodes \<open>xs\<close> and then reaches NULL. \<open>back_links h x ys\<close>: each node of \<open>ys\<close> has the
  node before it as its \<^verbatim>\<open>prev\<close>, the first of them \<open>x\<close>. \<open>child_list h a xs\<close>: the
  children of \<open>a\<close> are the nodes \<open>xs\<close>, doubly linked, and the head's \<^verbatim>\<open>prev\<close> is the tail.
\<close>

fun chain :: "heap \<Rightarrow> addr option \<Rightarrow> addr list \<Rightarrow> bool" where
  "chain h p [] = (p = None)"
| "chain h p (x # xs) = (p = Some x \<and> chain h (next_p (h x)) xs)"

fun back_links :: "heap \<Rightarrow> addr \<Rightarrow> addr list \<Rightarrow> bool" where
  "back_links h x [] = True"
| "back_links h x (y # ys) = (prev_p (h y) = Some x \<and> back_links h y ys)"

definition child_list :: "heap \<Rightarrow> addr \<Rightarrow> addr list \<Rightarrow> bool" where
  "child_list h a xs =
     (chain h (child_p (h a)) xs \<and> distinct xs \<and>
      (case xs of [] \<Rightarrow> True | x # ys \<Rightarrow> prev_p (h x) = Some (last xs) \<and> back_links h x ys))"

text \<open>The invariant of the spec: in a non-empty child list the head's \<^verbatim>\<open>prev\<close> is the
  tail and the tail's \<^verbatim>\<open>next\<close> is NULL.\<close>

definition head_tail_invariant :: "heap \<Rightarrow> addr \<Rightarrow> addr list \<Rightarrow> bool" where
  "head_tail_invariant h a xs =
     (chain h (child_p (h a)) xs \<and>
      (xs = [] \<or> (prev_p (h (hd xs)) = Some (last xs) \<and> next_p (h (last xs)) = None)))"

text \<open>\<open>seg h p xs q\<close>: following \<^verbatim>\<open>next\<close> from \<open>p\<close> visits the nodes \<open>xs\<close> and arrives
  at \<open>q\<close>.\<close>

fun seg :: "heap \<Rightarrow> addr option \<Rightarrow> addr list \<Rightarrow> addr option \<Rightarrow> bool" where
  "seg h p [] q = (p = q)"
| "seg h p (x # xs) q = (p = Some x \<and> seg h (next_p (h x)) xs q)"

text \<open>A store with one parent (address 0) whose children are the nodes 1 and 2; node 3
  is a fresh node.\<close>

definition example_heap :: heap where
  "example_heap =
     ((\<lambda>_. \<lparr>next_p = None, prev_p = None, child_p = None\<rparr>)
        (0 := \<lparr>next_p = None, prev_p = None, child_p = Some 1\<rparr>,
         1 := \<lparr>next_p = Some 2, prev_p = Some 2, child_p = None\<rparr>,
         2 := \<lparr>next_p = None, prev_p = Some 1, child_p = None\<rparr>))"

section \<open>Nodes with the link of their first child\<close>

text \<open>
  The editing functions, the sorter and the patch engine read and write
  \<^verbatim>\<open>child->prev\<close>, the \<^verbatim>\<open>prev\<close> link of a first child, which the list of children of the
  value tree leaves out. For them a node is a \<open>linked\<close>: the fields of the struct other
  than its three links (\<open>node\<close>, whose own list of children is not used and is empty in
  every tree below), the children in the order of \<^verbatim>\<open>next\<close> (\<open>members\<close>), and where the
  \<^verbatim>\<open>prev\<close> of the first child points (\<open>first_prev\<close>): nowhere (it is NULL, or there is no
  child), to the child at a position, or to a node that has left the list. The \<^verbatim>\<open>prev\<close>
  of every other child is the child before it: \<^verbatim>\<open>parse_array\<close>, \<^verbatim>\<open>parse_object\<close>,
  \<^verbatim>\<open>suffix_object\<close>, the detach, insert and replace functions, the duplicator and
  \<^verbatim>\<open>sort_list\<close> each write it so, and it is not part of the model.
\<close>

datatype prev_ptr = Prev_null | Prev_member nat | Prev_outside

datatype linked = Linked (node: json) (members: "linked list") (first_prev: prev_ptr)

text \<open>The link as the parser, the constructors and the duplicator leave it: at the last
  child. A tree is \<open>well_linked\<close> when the link of every node is so.\<close>

definition last_member :: "linked list \<Rightarrow> prev_ptr" where
  "last_member xs = (if xs = [] then Prev_null else Prev_member (length xs - 1))"

fun well_linked :: "linked \<Rightarrow> bool" where
  "well_linked (Linked n ms p) = (p = last_member ms \<and> list_all well_linked ms)"

text \<open>A value tree as the parser builds it.\<close>

fun as_built :: "json \<Rightarrow> linked" where
  "as_built (Json t vs vi vd k cs) =
     Linked (Json t vs vi vd k []) (map as_built cs) (last_member (map as_built cs))"

datatype 'a behaviour = Undefined | Defined 'a

section \<open>Tree editing\<close>

definition compare_strings :: "string option \<Rightarrow> string option \<Rightarrow> bool \<Rightarrow> int" where
  "compare_strings s1 s2 case_sensitive =
     (case (s1, s2) of
        (Some a, Some b) \<Rightarrow> if case_sensitive then strcmp a b else case_insensitive_strcmp s1 s2
      | _ \<Rightarrow> 1)"

text \<open>\<^verbatim>\<open>get_object_item\<close>: the loop stops at the first child whose key is NULL or equal to
  \<open>name\<close>; the result is the position of that child when it has a key.\<close>

fun object_item_index :: "bool \<Rightarrow> string \<Rightarrow> json list \<Rightarrow> nat option" where
  "object_item_index case_sensitive name [] = None"
| "object_item_index case_sensitive name (c # cs) =
     (case string c of
        None \<Rightarrow> None
      | Some k \<Rightarrow>
          if (if case_sensitive then strcmp name k \<noteq> 0
              else case_insensitive_strcmp (Some name) (Some k) \<noteq> 0)
          then map_option Suc (object_item_index case_sensitive name cs)
          else Some 0)"


definition get_object_item :: "linked option \<Rightarrow> string option \<Rightarrow> bool \<Rightarrow> linked option" where
  "get_object_item object name case_sensitive =
     (case (object, name) of
        (Some ob, Some n) \<Rightarrow>
          map_option (\<lambda>i. members ob ! i)
            (object_item_index case_sensitive n (map node (members ob)))
      | _ \<Rightarrow> None)"

definition stb_json_getobjectitem :: "linked option \<Rightarrow> string option \<Rightarrow> linked option" where
  "stb_json_getobjectitem object s = get_object_item object s False"


text \<open>
  \<^verbatim>\<open>stb_json_detachitemviapointer\<close> for the child at position \<open>i\<close> (no such child is the
  item NULL): the detached node and the parent without it. The child after the detached
  one takes its \<^verbatim>\<open>prev\<close>, so a new first child has the link of the old one; detaching the
  last child that is not the first sets the link to the child before it; otherwise the
  link is left, and points outside the list when it pointed to the detached node.
\<close>

definition after_removal :: "nat \<Rightarrow> prev_ptr \<Rightarrow> prev_ptr" where
  "after_removal i p =
     (case p of
        Prev_member j \<Rightarrow>
          if j = i then Prev_outside else if i < j then Prev_member (j - 1) else Prev_member j
      | _ \<Rightarrow> p)"

definition detach_member :: "nat \<Rightarrow> linked \<Rightarrow> linked option \<times> linked" where
  "detach_member i parent =
     (let xs = members parent
      in if length xs \<le> i then (None, parent)
         else let rest = take i xs @ drop (Suc i) xs
              in (Some (xs ! i),
                  Linked (node parent) rest
                    (if rest = [] then Prev_null
                     else if 0 < i \<and> Suc i = length xs then Prev_member (i - 1)
                     else after_removal i (first_prev parent))))"

definition detach_item_from_object :: "bool \<Rightarrow> linked \<Rightarrow> string option \<Rightarrow> linked option \<times> linked" where
  "detach_item_from_object case_sensitive object s =
     (case s of
        None \<Rightarrow> (None, object)
      | Some n \<Rightarrow>
          (case object_item_index case_sensitive n (map node (members object)) of
             None \<Rightarrow> (None, object)
           | Some i \<Rightarrow> detach_member i object))"

definition stb_json_detachitemfromobject :: "linked \<Rightarrow> string option \<Rightarrow> linked option \<times> linked" where
  "stb_json_detachitemfromobject object s = detach_item_from_object False object s"

definition stb_json_detachitemfromobjectcasesensitive :: "linked \<Rightarrow> string option \<Rightarrow> linked option \<times> linked" where
  "stb_json_detachitemfromobjectcasesensitive object s = detach_item_from_object True object s"

definition stb_json_deleteitemfromobject :: "linked \<Rightarrow> string option \<Rightarrow> linked" where
  "stb_json_deleteitemfromobject object s = snd (stb_json_detachitemfromobject object s)"

definition stb_json_deleteitemfromobjectcasesensitive :: "linked \<Rightarrow> string option \<Rightarrow> linked" where
  "stb_json_deleteitemfromobjectcasesensitive object s =
     snd (stb_json_detachitemfromobjectcasesensitive object s)"

text \<open>
  \<^verbatim>\<open>add_item_to_array\<close> on an array and an item that are not NULL and not the same node.
  With no child the item becomes the only one. Otherwise the item is put after the node
  that the first child's \<^verbatim>\<open>prev\<close> points to, and the first child's \<^verbatim>\<open>prev\<close> is set to the
  item: the children after that node are cut off. Where that \<^verbatim>\<open>prev\<close> is NULL nothing is
  linked (and the function still returns true). Where it points outside the list the
  function writes to a node that has left the list, and has been freed if it was
  deleted: the model stops there, with \<open>Undefined\<close>.
\<close>

definition append_member :: "linked \<Rightarrow> linked \<Rightarrow> linked behaviour" where
  "append_member array item =
     (if members array = [] then Defined (Linked (node array) [item] (Prev_member 0))
      else case first_prev array of
             Prev_null \<Rightarrow> Defined array
           | Prev_member j \<Rightarrow>
               if j < length (members array)
               then Defined (Linked (node array) (take (Suc j) (members array) @ [item])
                               (Prev_member (Suc j)))
               else Undefined
           | Prev_outside \<Rightarrow> Undefined)"

text \<open>\<^verbatim>\<open>add_item_to_object\<close> with \<^verbatim>\<open>constant_key\<close> false, on an object and an item that
  are not NULL and not the same node: the item gets a copy of the key, loses the
  constant-key flag and goes to \<^verbatim>\<open>add_item_to_array\<close>. With a NULL key nothing is added.\<close>

definition stb_json_additemtoobject :: "linked \<Rightarrow> string option \<Rightarrow> linked \<Rightarrow> linked behaviour" where
  "stb_json_additemtoobject object s item =
     (case s of
        None \<Rightarrow> Defined object
      | Some n \<Rightarrow>
          append_member object
            (Linked (set_type (type (node item) AND NOT STB_JSON_STRING_IS_CONST)
                       (set_string (Some n) (node item)))
               (members item) (first_prev item)))"

definition stb_json_createobject :: linked where
  "stb_json_createobject = Linked (set_type STB_JSON_OBJECT stb_json_new_item) [] Prev_null"

text \<open>\<^verbatim>\<open>stb_json_duplicate_rec\<close> with \<^verbatim>\<open>recurse\<close> true. The key is copied unless it is a
  constant key; the copies of the children are linked one after the other and the
  first to the last; below \<^verbatim>\<open>STB_JSON_CIRCULAR_LIMIT\<close> levels the copy fails.\<close>

fun stb_json_duplicate_rec :: "linked \<Rightarrow> nat \<Rightarrow> linked option"
  and duplicate_children :: "linked list \<Rightarrow> nat \<Rightarrow> linked list option"
where
  "stb_json_duplicate_rec (Linked n ms p) level =
     (if STB_JSON_CIRCULAR_LIMIT \<le> level then None
      else case duplicate_children ms (level + 1) of
             None \<Rightarrow> None
           | Some ms' \<Rightarrow>
               Some (Linked (if type n AND STB_JSON_STRING_IS_CONST \<noteq> 0 then set_string None n else n)
                       ms' (last_member ms')))"
| "duplicate_children [] level = Some []"
| "duplicate_children (c # cs) level =
     (case stb_json_duplicate_rec c level of
        None \<Rightarrow> None
      | Some c' \<Rightarrow> map_option (\<lambda>r. c' # r) (duplicate_children cs level))"

definition stb_json_duplicate :: "linked option \<Rightarrow> linked option" where
  "stb_json_duplicate item = (case item of None \<Rightarrow> None | Some i \<Rightarrow> stb_json_duplicate_rec i 0)"

section \<open>Merge patch\<close>

text \<open>\<^verbatim>\<open>merge_patch\<close>, for a patch that is not NULL, and its loop over the members of the
  patch. The result is the pointer that the function returns (\<open>None\<close> is NULL), and
  \<open>Undefined\<close> where adding a member writes outside the list.\<close>

definition coerce_to_object :: "linked option \<Rightarrow> linked" where
  "coerce_to_object target =
     (case target of
        None \<Rightarrow> stb_json_createobject
      | Some tg \<Rightarrow> if stb_json_isobject (Some (node tg)) then tg else stb_json_createobject)"

fun merge_patch :: "bool \<Rightarrow> linked option \<Rightarrow> linked \<Rightarrow> linked option behaviour"
  and merge_patch_members :: "bool \<Rightarrow> linked \<Rightarrow> linked list \<Rightarrow> linked option behaviour"
where
  "merge_patch case_sensitive target (Linked n ms p) =
     (if \<not> stb_json_isobject (Some n)
      then Defined (stb_json_duplicate (Some (Linked n ms p)))
      else merge_patch_members case_sensitive (coerce_to_object target) ms)"
| "merge_patch_members case_sensitive target [] = Defined (Some target)"
| "merge_patch_members case_sensitive target (patch_child # rest) =
     (if stb_json_isnull (Some (node patch_child)) then
        merge_patch_members case_sensitive
          (if case_sensitive
           then stb_json_deleteitemfromobjectcasesensitive target (string (node patch_child))
           else stb_json_deleteitemfromobject target (string (node patch_child)))
          rest
      else
        (let (replace_me, target') =
               (if case_sensitive
                then stb_json_detachitemfromobjectcasesensitive target (string (node patch_child))
                else stb_json_detachitemfromobject target (string (node patch_child)))
         in case merge_patch case_sensitive replace_me patch_child of
              Undefined \<Rightarrow> Undefined
            | Defined None \<Rightarrow> Defined None
            | Defined (Some replacement) \<Rightarrow>
                (case stb_json_additemtoobject target' (string (node patch_child)) replacement of
                   Undefined \<Rightarrow> Undefined
                 | Defined target'' \<Rightarrow> merge_patch_members case_sensitive target'' rest)))"

definition stb_json_utils_mergepatch :: "linked option \<Rightarrow> linked option \<Rightarrow> linked option behaviour" where
  "stb_json_utils_mergepatch target patch =
     (case patch of None \<Rightarrow> Defined None | Some p \<Rightarrow> merge_patch False target p)"















section \<open>The patch engine's comparator\<close>

fun first_index :: "('a \<Rightarrow> bool) \<Rightarrow> 'a list \<Rightarrow> nat option" where
  "first_index P [] = None"
| "first_index P (x # xs) = (if P x then Some 0 else map_option Suc (first_index P xs))"

text \<open>
  \<^verbatim>\<open>sort_list\<close>: a merge sort of the child list by key. A node is given with the
  position it had in the list when the sort began, which stands for its address, and
  \<open>p\<close> is where the \<^verbatim>\<open>prev\<close> of the first node of the list points (a position of that
  time). The list is cut before the node that the slow cursor reaches (position
  \<open>length xs div 2\<close>), and the \<^verbatim>\<open>prev\<close> of that node, the first of the second half, is set
  to NULL. The merge takes the node of the second half unless the key of the first is
  smaller, and writes the \<^verbatim>\<open>prev\<close> of every node that it links after another: never that
  of the node it returns, which keeps what it had.
\<close>

fun merge_sorted :: "bool \<Rightarrow> (nat \<times> linked) list \<Rightarrow> (nat \<times> linked) list \<Rightarrow> (nat \<times> linked) list" where
  "merge_sorted case_sensitive [] second = second"
| "merge_sorted case_sensitive (f # first) [] = f # first"
| "merge_sorted case_sensitive (f # first) (s # second) =
     (if compare_strings (string (node (snd f))) (string (node (snd s))) case_sensitive < 0
      then f # merge_sorted case_sensitive first (s # second)
      else s # merge_sorted case_sensitive (f # first) second)"

function sort_list :: "bool \<Rightarrow> prev_ptr \<Rightarrow> (nat \<times> linked) list \<Rightarrow> prev_ptr \<times> (nat \<times> linked) list" where
  "sort_list case_sensitive p xs =
     (if length xs \<le> 1 then (p, xs)
      else case sort_list case_sensitive p (take (length xs div 2) xs) of
             (p1, first) \<Rightarrow>
               (case sort_list case_sensitive Prev_null (drop (length xs div 2) xs) of
                  (p2, second) \<Rightarrow>
                    (if compare_strings (string (node (snd (hd first))))
                          (string (node (snd (hd second)))) case_sensitive < 0
                     then p1 else p2,
                     merge_sorted case_sensitive first second)))"
  by pat_completeness auto
termination
  by (relation "measure (\<lambda>(c, p, xs). length xs)") auto

declare sort_list.simps [simp del]

text \<open>\<^verbatim>\<open>sort_object\<close>: the children in their new order, and the link of the new first
  child as a position in that order.\<close>

definition place :: "nat list \<Rightarrow> prev_ptr \<Rightarrow> prev_ptr" where
  "place tags p =
     (case p of
        Prev_member t \<Rightarrow>
          (case first_index (\<lambda>x. x = t) tags of None \<Rightarrow> Prev_outside | Some i \<Rightarrow> Prev_member i)
      | _ \<Rightarrow> p)"

definition sort_object :: "bool \<Rightarrow> linked \<Rightarrow> linked" where
  "sort_object case_sensitive object =
     (case sort_list case_sensitive (first_prev object)
             (zip [0..<length (members object)] (members object)) of
        (p, ordered) \<Rightarrow> Linked (node object) (map snd ordered) (place (map fst ordered) p))"









section \<open>JSON Pointer and the test operation\<close>
















section \<open>Properties\<close>

subsection \<open>Rounding\<close>

text \<open>A value \<open>m * 2^k\<close> with \<open>|m| < 2^53\<close> and \<open>-1074 \<le> k \<le> 971\<close> is a double, and
  rounding leaves it as it is.\<close>

lemma pow2_powi: "pow2 k = 2 powi k"
  by (simp add: pow2_def power_int_def field_simps)

lemma pow2_pos: "0 < pow2 k"
  by (simp add: pow2_powi)

lemma pow2_add: "pow2 (i + j) = pow2 i * pow2 j"
  by (simp add: pow2_powi power_int_add)

lemma pow2_mono: "i \<le> j \<Longrightarrow> pow2 i \<le> pow2 j"
  by (simp add: pow2_powi power_int_increasing)

lemma pow2_less_imp: "pow2 i < pow2 j \<Longrightarrow> i < j"
  using pow2_mono [of j i] by (cases "i < j") auto

lemma pow2_nat: "pow2 (int n) = 2 ^ n"
  by (simp add: pow2_def)

lemma ilog2_lower:
  assumes "0 < a"
  shows "pow2 (ilog2 a) \<le> a"
proof -
  obtain p q where pq: "quotient_of a = (p, q)" by (cases "quotient_of a")
  have q: "0 < q" using pq by (rule quotient_of_denom_pos)
  have a: "a = of_int p / of_int q" using pq by (rule quotient_of_div)
  have p: "0 < p" using assms q a by (simp add: zero_less_divide_iff)
  let ?d = "bitlen p - bitlen q"
  show ?thesis
  proof (cases "pow2 ?d \<le> a")
    case True
    then show ?thesis by (simp add: ilog2_def pq)
  next
    case False
    have bp: "1 \<le> bitlen p" using p bitlen_eq_zero_iff [of p] bitlen_nonneg [of p] by linarith
    have "(2::int) ^ nat (bitlen p - 1) \<le> p" using bitlen_bounds [OF p] by simp
    then have "(of_int ((2::int) ^ nat (bitlen p - 1)) :: rat) \<le> of_int p"
      by (simp only: of_int_le_iff)
    then have lo: "pow2 (bitlen p - 1) \<le> of_int p"
      using bp by (simp add: pow2_def)
    have "q < 2 ^ nat (bitlen q)" using bitlen_bounds [OF q] by simp
    then have "(of_int q :: rat) < of_int ((2::int) ^ nat (bitlen q))"
      by (simp only: of_int_less_iff)
    then have hi: "of_int q \<le> pow2 (bitlen q)"
      using bitlen_nonneg [of q] by (simp add: pow2_def)
    have "pow2 (?d - 1) * of_int q \<le> pow2 (?d - 1) * pow2 (bitlen q)"
      using hi pow2_pos [of "?d - 1"] by (simp add: mult_left_mono)
    also have "\<dots> = pow2 (bitlen p - 1)"
      by (simp add: pow2_add [symmetric])
    finally have "pow2 (?d - 1) * of_int q \<le> of_int p" using lo by simp
    then have "pow2 (?d - 1) \<le> a"
      using q by (simp add: a pos_le_divide_eq)
    then show ?thesis using False by (simp add: ilog2_def pq)
  qed
qed

lemma round_half_even_int: "round_half_even (of_int n) = n"
  by (simp add: round_half_even_def)

lemma rnd_core:
  assumes "0 < A"
    and "of_int (round_half_even (A / pow2 (max (ilog2 A) (- 1022) - 52)))
           * pow2 (max (ilog2 A) (- 1022) - 52) = A"
    and "\<not> pow2 1024 \<le> A"
  shows "rnd A = Finite A" and "rnd (- A) = Finite (- A)"
  using assms by (simp_all add: rnd_def Let_def)

lemma rnd_representable:
  assumes m: "\<bar>m\<bar> < 2 ^ 53" and k: "- 1074 \<le> k" "k \<le> 971"
  shows "rnd (of_int m * pow2 k) = Finite (of_int m * pow2 k)"
proof (cases "m = 0")
  case True
  then show ?thesis by (simp add: rnd_def)
next
  case False
  define A :: rat where "A = of_int \<bar>m\<bar> * pow2 k"
  have abs_eq: "\<bar>of_int m * pow2 k :: rat\<bar> = A"
    using pow2_pos [of k] by (simp add: A_def abs_mult)
  have A_pos: "0 < A" using False pow2_pos [of k] by (simp add: A_def)
  have "of_int \<bar>m\<bar> < (2 ^ 53 :: rat)"
    using m by (metis of_int_less_iff of_int_numeral of_int_power)
  then have "A < 2 ^ 53 * pow2 k"
    using pow2_pos [of k] by (simp add: A_def)
  also have "\<dots> = pow2 (53 + k)"
  proof -
    have "pow2 53 = 2 ^ 53" unfolding pow2_def by simp
    then show ?thesis by (simp only: pow2_add)
  qed
  finally have A_lt: "A < pow2 (53 + k)" .
  have "pow2 (ilog2 A) < pow2 (53 + k)"
    using ilog2_lower [OF A_pos] A_lt by simp
  then have e0: "ilog2 A < 53 + k" by (rule pow2_less_imp)
  define e where "e = max (ilog2 A) (- 1022)"
  define U where "U = pow2 (e - 52)"
  have U_pos: "0 < U" by (simp add: U_def pow2_pos)
  have e: "e - 52 \<le> k" using e0 k by (simp add: e_def)
  define j where "j = nat (k - (e - 52))"
  have kj: "k = (e - 52) + int j" using e by (simp add: j_def)
  have pk: "pow2 k = U * 2 ^ j"
    by (subst kj) (simp only: pow2_add pow2_nat U_def)
  have quot: "A / U = of_int (\<bar>m\<bar> * 2 ^ j)"
    using U_pos by (simp add: A_def pk)
  have r: "of_int (round_half_even (A / U)) * U = A"
    by (simp only: quot round_half_even_int) (use U_pos in \<open>simp add: A_def pk\<close>)
  have "pow2 (53 + k) \<le> pow2 1024" using k by (intro pow2_mono) simp
  then have small: "\<not> pow2 1024 \<le> A" using A_lt by simp
  have r': "of_int (round_half_even (A / pow2 (max (ilog2 A) (- 1022) - 52)))
           * pow2 (max (ilog2 A) (- 1022) - 52) = A"
    using r by (simp only: U_def e_def)
  have "of_int m * pow2 k = A \<or> of_int m * pow2 k = - A"
    using abs_eq by (simp add: abs_if split: if_splits)
  then show ?thesis
    using rnd_core [OF A_pos r' small] by auto
qed

lemma rnd_int: "\<bar>n\<bar> < 2 ^ 53 \<Longrightarrow> rnd (of_int n) = Finite (of_int n)"
  using rnd_representable [of n 0] by (simp add: pow2_def)

lemma d_of_int_exact: "\<bar>n\<bar> < 2 ^ 53 \<Longrightarrow> d_of_int n = Finite (of_int n)"
  by (simp add: d_of_int_def rnd_int)

lemma createnumber_one: "stb_json_createnumber (Finite 1) = Json 8 None 1 (Finite 1) None []"
  by (simp add: stb_json_createnumber_def saturate_int_def d_of_int_exact INT_MAX_def INT_MIN_def
      d_ge_def kind_defs)

lemma createnumber_below_one:
  "stb_json_createnumber below_one = Json 8 None 0 below_one None []"
proof -
  have "\<lfloor>9007199254740991 / 9007199254740992 :: rat\<rfloor> = 0"
    by (rule floor_unique) simp_all
  then show ?thesis
    by (simp add: stb_json_createnumber_def saturate_int_def d_of_int_exact INT_MAX_def
        INT_MIN_def d_ge_def kind_defs below_one_def)
qed

lemma compare_double_one_below: "compare_double (Finite 1) below_one"
proof -
  have 1: "rnd (1 / 2 ^ 53) = Finite (1 / 2 ^ 53)"
    using rnd_representable [of 1 "- 53"] by (simp add: pow2_def)
  have 2: "rnd (1 / 2 ^ 52) = Finite (1 / 2 ^ 52)"
    using rnd_representable [of 1 "- 52"] by (simp add: pow2_def)
  show ?thesis
    using 1 2 by (simp add: compare_double_def d_sub_def d_mul_def d_gt_def DBL_EPSILON_def
        pow2_def below_one_def)
qed


subsection \<open>Accessors on NULL and on nodes of another kind\<close>

text \<open>
  Claim C10. The accessors are NULL-safe. For an argument that is NULL or not a
  number node, \<^verbatim>\<open>stb_json_getnumbervalue\<close> and \<^verbatim>\<open>stb_json_getnumberdouble\<close> return
  NaN and \<^verbatim>\<open>stb_json_getnumberint\<close> returns 0; each \<^verbatim>\<open>stb_json_is*\<close> predicate is
  false on NULL; \<^verbatim>\<open>stb_json_getarraysize\<close> is 0 on NULL; and
  \<^verbatim>\<open>stb_json_getarrayitem\<close> returns NULL for every negative index.
\<close>

theorem accessors_null_safe:
  "(\<not> stb_json_isnumber item \<longrightarrow>
      stb_json_getnumbervalue item = NaN \<and> stb_json_getnumberdouble item = NaN
      \<and> stb_json_getnumberint item = 0)
   \<and> \<not> stb_json_isnumber None
   \<and> \<not> stb_json_isinvalid None \<and> \<not> stb_json_isfalse None \<and> \<not> stb_json_istrue None
   \<and> \<not> stb_json_isbool None \<and> \<not> stb_json_isnull None \<and> \<not> stb_json_isstring None
   \<and> \<not> stb_json_isarray None \<and> \<not> stb_json_isobject None \<and> \<not> stb_json_israw None
   \<and> stb_json_getarraysize None = 0
   \<and> (index < 0 \<longrightarrow> stb_json_getarrayitem array index = None)"
  by (simp add: stb_json_getnumbervalue_def stb_json_getnumberdouble_def
      stb_json_getnumberint_def stb_json_isnumber_def stb_json_isinvalid_def
      stb_json_isfalse_def stb_json_istrue_def stb_json_isbool_def stb_json_isnull_def
      stb_json_isstring_def stb_json_isarray_def stb_json_isobject_def stb_json_israw_def
      stb_json_getarraysize_def stb_json_getarrayitem_def)

theorem accessors_null_safe_witness:
  "stb_json_getnumbervalue None = NaN
   \<and> stb_json_getnumberint None = 0
   \<and> stb_json_getnumbervalue (Some (Json STB_JSON_STRING (Some ''7'') 7 (Finite 7) None [])) = NaN
   \<and> stb_json_getnumberdouble (Some (Json STB_JSON_STRING (Some ''7'') 7 (Finite 7) None [])) = NaN
   \<and> stb_json_getnumberint (Some (Json STB_JSON_STRING (Some ''7'') 7 (Finite 7) None [])) = 0
   \<and> stb_json_getarrayitem (Some (Json STB_JSON_ARRAY None 0 (Finite 0) None
        [stb_json_createnumber (Finite 1)])) (- 1) = None"
proof -
  let ?s = "Some (Json STB_JSON_STRING (Some ''7'') 7 (Finite 7) None [])"
  let ?a = "Some (Json STB_JSON_ARRAY None 0 (Finite 0) None [stb_json_createnumber (Finite 1)])"
  have n: "\<not> stb_json_isnumber None" "\<not> stb_json_isnumber ?s"
    by (simp_all add: stb_json_isnumber_def kind_defs)
  have i: "(- 1 :: int) < 0" by simp
  show ?thesis
    using accessors_null_safe [of None "- 1" ?a] accessors_null_safe [of ?s "- 1" ?a] n i
    by blast
qed

subsection \<open>Minification\<close>

text \<open>
  Claim C7 says that minifying twice equals minifying once. The code does not do
  that: inside a string literal, \<^verbatim>\<open>minify_string\<close> drops the byte that follows an
  escaped quote. On the buffer \<^verbatim>\<open>"\"a"\<close> (a string literal holding a quote and an
  \<^verbatim>\<open>a\<close>) the first pass leaves \<^verbatim>\<open>"\""\<close> and the second pass leaves \<^verbatim>\<open>"\"\<close>.
\<close>

theorem minify_twice_differs:
  "stb_json_minify [dquote, bslash, dquote, CHR ''a'', dquote] = Some [dquote, bslash, dquote, dquote]
   \<and> stb_json_minify [dquote, bslash, dquote, dquote] = Some [dquote, bslash, dquote]
   \<and> [dquote, bslash, dquote, dquote] \<noteq> [dquote, bslash, dquote]"
  by (simp add: stb_json_minify_def minify_string_def dquote_def bslash_def)

subsection \<open>Comparing numbers\<close>

text \<open>
  Claim C5 says that \<^verbatim>\<open>stb_json_compare\<close> reports two numbers equal iff their doubles
  compare equal up to \<open>max(|a|,|b|) * DBL_EPSILON\<close> and their integer projections agree.
  The stand-alone comparator never reads \<^verbatim>\<open>valueint\<close>: the nodes that
  \<^verbatim>\<open>stb_json_createnumber\<close> builds for 1.0 and for the double just below it have the
  integer projections 1 and 0, and compare equal.
\<close>

theorem compare_ignores_valueint_counterexample:
  "stb_json_compare False (Some (stb_json_createnumber (Finite 1)))
     (Some (stb_json_createnumber below_one)) True = Some True
   \<and> compare_double (valuedouble (stb_json_createnumber (Finite 1)))
         (valuedouble (stb_json_createnumber below_one))
   \<and> valueint (stb_json_createnumber (Finite 1)) = 1
   \<and> valueint (stb_json_createnumber below_one) = 0"
  using compare_double_one_below
  by (simp add: createnumber_one createnumber_below_one stb_json_compare_def kind_defs)

text \<open>
  Claim C5, amended. For two different number nodes, \<^verbatim>\<open>stb_json_compare\<close> reports them
  equal iff their doubles compare equal up to \<open>max(|a|,|b|) * DBL_EPSILON\<close>, whatever
  their integer projections are.
\<close>

theorem compare_numbers_by_double:
  assumes "type a AND 0xFF = STB_JSON_NUMBER" and "type b AND 0xFF = STB_JSON_NUMBER"
  shows "stb_json_compare False (Some a) (Some b) case_sensitive
           = Some (compare_double (valuedouble a) (valuedouble b))"
  using assms by (cases a; cases b) (simp add: stb_json_compare_def kind_defs)

theorem compare_numbers_by_double_witness:
  "type (Json 8 None 7 (Finite 1) None []) AND 0xFF = STB_JSON_NUMBER
   \<and> type (Json 8 None 0 below_one None []) AND 0xFF = STB_JSON_NUMBER
   \<and> stb_json_compare False (Some (Json 8 None 7 (Finite 1) None []))
         (Some (Json 8 None 0 below_one None [])) True = Some True"
proof -
  have t: "type (Json 8 None 7 (Finite 1) None []) AND 0xFF = STB_JSON_NUMBER"
    "type (Json 8 None 0 below_one None []) AND 0xFF = STB_JSON_NUMBER"
    by (simp_all add: kind_defs)
  show ?thesis
    using compare_numbers_by_double [OF t, of True] compare_double_one_below t by simp
qed

subsection \<open>A leading plus sign\<close>

lemma rnd_zero [simp]: "rnd 0 = Finite 0"
  by (simp add: rnd_def)

lemma rnd_numeral: "(numeral k :: int) < 2 ^ 53 \<Longrightarrow> rnd (numeral k) = Finite (numeral k)"
  using rnd_int [of "numeral k"] by simp

lemma rnd_neg_numeral:
  "(numeral k :: int) < 2 ^ 53 \<Longrightarrow> rnd (- numeral k) = Finite (- numeral k)"
  using rnd_int [of "- numeral k"] by simp

lemma rnd_one [simp]: "rnd 1 = Finite 1"
  using rnd_int [of 1] by simp

lemma reads_literal_first: "reads_literal b (c # cs) \<Longrightarrow> byte_at b 0 = Some c"
  by (simp add: reads_literal_def upt_rec)

lemma parse_value_plus:
  assumes "byte_at b 0 = Some (CHR ''+'')"
  shows "parse_value (Suc fuel) item b = Failed"
proof -
  have "\<not> reads_literal b ''null''" "\<not> reads_literal b ''false''" "\<not> reads_literal b ''true''"
    using assms by (auto dest: reads_literal_first)
  then show ?thesis
    using assms by (simp add: dquote_def is_digit_def)
qed

lemma skip_ws_stay:
  "byte_at b 0 = Some c \<Longrightarrow> 32 < (of_char c :: nat) \<Longrightarrow> buffer_skip_whitespace b = b"
  by (subst buffer_skip_whitespace.simps) simp

text \<open>
  Claim C6 says that some number token beginning with \<^verbatim>\<open>+\<close>, where a JSON value may
  stand, is accepted and gives a number node. No text whose value begins with \<^verbatim>\<open>+\<close>
  is accepted: \<^verbatim>\<open>stb_json_parse\<close> fails on every string that begins with \<^verbatim>\<open>+\<close>.
\<close>

theorem leading_plus_counterexample: "\<forall>s. stb_json_parse (CHR ''+'' # s) = Failed"
proof
  fix s
  let ?b = "\<lparr>content = CHR ''+'' # s @ [NUL], offset = 0, depth = 0\<rparr>"
  have b0: "byte_at ?b 0 = Some (CHR ''+'')"
    by (simp add: byte_at_def can_access_at_index_def)
  have bom: "skip_utf8_bom ?b = Some ?b"
    using b0 by (simp add: skip_utf8_bom_def)
  have ws: "buffer_skip_whitespace ?b = ?b"
    using b0 by (rule skip_ws_stay) simp
  obtain n where "parse_fuel (CHR ''+'' # s @ [NUL]) = Suc n"
    by (simp add: parse_fuel_def)
  then have "parse_value (parse_fuel (CHR ''+'' # s @ [NUL])) stb_json_new_item ?b = Failed"
    using parse_value_plus [OF b0] by (simp only:)
  then show "stb_json_parse (CHR ''+'' # s) = Failed"
    by (simp add: stb_json_parse_def stb_json_parse_withlengthopts_def bom ws)
qed

text \<open>
  Claim C6, amended. \<^verbatim>\<open>parse_value\<close> hands a value to the number parser only when its
  first byte is \<^verbatim>\<open>-\<close> or a digit, so at a first byte \<^verbatim>\<open>+\<close> it fails, wherever the value
  stands. The number scanner itself takes a leading \<^verbatim>\<open>+\<close>: called at \<^verbatim>\<open>+5\<close>,
  \<^verbatim>\<open>parse_number\<close> consumes both bytes and gives the number 5; the parser never calls
  it there.
\<close>

theorem leading_plus_rejected:
  "(byte_at b 0 = Some (CHR ''+'') \<longrightarrow> parse_value (Suc fuel) item b = Failed)
   \<and> parse_number stb_json_new_item \<lparr>content = ''+5'', offset = 0, depth = 0\<rparr>
       = Some (Json STB_JSON_NUMBER None 5 (Finite 5) None [],
               \<lparr>content = ''+5'', offset = 2, depth = 0\<rparr>)"
proof
  show "byte_at b 0 = Some (CHR ''+'') \<longrightarrow> parse_value (Suc fuel) item b = Failed"
    using parse_value_plus by blast
  show "parse_number stb_json_new_item \<lparr>content = ''+5'', offset = 0, depth = 0\<rparr>
       = Some (Json STB_JSON_NUMBER None 5 (Finite 5) None [],
               \<lparr>content = ''+5'', offset = 2, depth = 0\<rparr>)"
    by (simp add: parse_number_def remaining_def is_number_char_def is_digit_def
        stb_json_strtod_def digit_of_def d_of_int_def rnd_numeral rnd_neg_numeral d_mul_def
        saturate_int_def d_ge_def INT_MAX_def INT_MIN_def set_type_def set_valueint_def
        set_valuedouble_def stb_json_new_item_def advance_def)
qed

theorem leading_plus_rejected_witness:
  "byte_at \<lparr>content = ''[+1]'', offset = 1, depth = 1\<rparr> 0 = Some (CHR ''+'')
   \<and> parse_value (Suc 0) stb_json_new_item \<lparr>content = ''[+1]'', offset = 1, depth = 1\<rparr> = Failed"
proof -
  have b: "byte_at \<lparr>content = ''[+1]'', offset = 1, depth = 1\<rparr> 0 = Some (CHR ''+'')"
    by (simp add: byte_at_def can_access_at_index_def)
  show ?thesis
    using leading_plus_rejected [of "\<lparr>content = ''[+1]'', offset = 1, depth = 1\<rparr>" 0 stb_json_new_item] b
    by blast
qed

subsection \<open>The child list under append, insert and detach\<close>

lemma chain_upd_other [simp]: "x \<notin> set xs \<Longrightarrow> chain (h(x := c)) p xs = chain h p xs"
  by (induction xs arbitrary: p) auto

lemma chain_upd_same_next [simp]:
  "next_p c = next_p (h x) \<Longrightarrow> chain (h(x := c)) p xs = chain h p xs"
  by (induction xs arbitrary: p) auto

lemma back_links_upd_other [simp]: "x \<notin> set ys \<Longrightarrow> back_links (h(x := c)) y ys = back_links h y ys"
  by (induction ys arbitrary: y) auto

lemma back_links_upd_same_prev [simp]:
  "prev_p c = prev_p (h x) \<Longrightarrow> back_links (h(x := c)) y ys = back_links h y ys"
  by (induction ys arbitrary: y) auto

lemma chain_last_next: "chain h p xs \<Longrightarrow> xs \<noteq> [] \<Longrightarrow> next_p (h (last xs)) = None"
  by (induction xs arbitrary: p) (auto split: if_splits)

lemma child_list_head_tail: "child_list h a xs \<Longrightarrow> head_tail_invariant h a xs"
  by (cases xs) (auto simp: child_list_def head_tail_invariant_def dest: chain_last_next)


lemma chain_cong:
  "(\<And>z. z \<in> set xs \<Longrightarrow> next_p (h' z) = next_p (h z)) \<Longrightarrow> chain h' p xs = chain h p xs"
  by (induction xs arbitrary: p) auto

lemma back_links_cong:
  "(\<And>z. z \<in> set ys \<Longrightarrow> prev_p (h' z) = prev_p (h z)) \<Longrightarrow> back_links h' y ys = back_links h y ys"
  by (induction ys arbitrary: y) auto

lemma chain_snoc:
  assumes "chain h p xs" "xs \<noteq> []" "distinct xs" "i \<notin> set xs"
    and "\<And>z. z \<in> set xs \<Longrightarrow> z \<noteq> last xs \<Longrightarrow> next_p (h' z) = next_p (h z)"
    and "next_p (h' (last xs)) = Some i" "next_p (h' i) = None"
  shows "chain h' p (xs @ [i])"
  using assms
proof (induction xs arbitrary: p)
  case Nil
  then show ?case by simp
next
  case (Cons x xs)
  show ?case
  proof (cases "xs = []")
    case True
    then show ?thesis using Cons.prems by auto
  next
    case False
    then have "x \<noteq> last (x # xs)" using Cons.prems(3) by auto
    then have "next_p (h' x) = next_p (h x)" using Cons.prems(5) by simp
    moreover have "chain h' (next_p (h x)) (xs @ [i])"
      using Cons.prems False by (intro Cons.IH) auto
    ultimately show ?thesis using Cons.prems(1) by simp
  qed
qed

lemma back_links_snoc:
  assumes "back_links h x ys" "i \<notin> set ys"
    and "\<And>z. z \<in> set ys \<Longrightarrow> prev_p (h' z) = prev_p (h z)"
    and "prev_p (h' i) = Some (last (x # ys))"
  shows "back_links h' x (ys @ [i])"
  using assms by (induction ys arbitrary: x) auto

lemma add_item_preserves:
  assumes cl: "child_list h a xs"
    and fresh: "i \<notin> set xs" "i \<noteq> a" "next_p (h i) = None"
  shows "\<exists>h'. add_item_to_array h (Some a) (Some i) = Some (True, h') \<and> child_list h' a (xs @ [i])"
proof (cases xs)
  case Nil
  then have "child_p (h a) = None" using cl by (simp add: child_list_def)
  then show ?thesis
    using Nil fresh by (simp add: add_item_to_array_def Let_def child_list_def)
next
  case (Cons x ys)
  define t where "t = last xs"
  have head: "child_p (h a) = Some x" and pv: "prev_p (h x) = Some t"
    and ch: "chain h (Some x) xs" and bl: "back_links h x ys" and dist: "distinct xs"
    using cl Cons by (auto simp: child_list_def t_def)
  have t_in: "t \<in> set xs" using Cons by (simp add: t_def)
  then have ti: "t \<noteq> i" using fresh by auto
  have xi: "x \<noteq> i" using fresh Cons by auto
  define h1 where "h1 = suffix_object h t i"
  define h' where "h' = h1(x := (h1 x)\<lparr>prev_p := Some i\<rparr>)"
  have nx: "\<And>z. next_p (h' z) = (if z = t then Some i else next_p (h z))"
    using ti by (auto simp: h'_def h1_def suffix_object_def Let_def)
  have pr: "\<And>z. prev_p (h' z) = (if z = x then Some i else if z = i then Some t else prev_p (h z))"
    by (auto simp: h'_def h1_def suffix_object_def Let_def)
  have cp: "\<And>z. child_p (h' z) = child_p (h z)"
    by (auto simp: h'_def h1_def suffix_object_def Let_def)
  have "child_p (h1 a) = Some x"
    using head by (auto simp: h1_def suffix_object_def Let_def)
  then have res: "add_item_to_array h (Some a) (Some i) = Some (True, h')"
    using fresh head pv
    by (simp add: add_item_to_array_def h'_def h1_def [symmetric] Let_def)
  have c': "chain h' (Some x) (xs @ [i])"
    using ch _ dist fresh(1)
  proof (rule chain_snoc)
    show "xs \<noteq> []" using Cons by simp
    show "next_p (h' (last xs)) = Some i" by (simp add: nx t_def)
    show "next_p (h' i) = None" using ti fresh by (simp add: nx)
    show "\<And>z. z \<in> set xs \<Longrightarrow> z \<noteq> last xs \<Longrightarrow> next_p (h' z) = next_p (h z)"
      by (simp add: nx t_def)
  qed
  have b': "back_links h' x (ys @ [i])"
    using bl
  proof (rule back_links_snoc)
    show "i \<notin> set ys" using fresh Cons by simp
    show "\<And>z. z \<in> set ys \<Longrightarrow> prev_p (h' z) = prev_p (h z)"
      using dist Cons fresh by (auto simp: pr)
    show "prev_p (h' i) = Some (last (x # ys))"
      using xi Cons by (simp add: pr t_def)
  qed
  have "child_list h' a (xs @ [i])"
    using c' b' dist fresh Cons by (simp add: child_list_def cp head pr)
  then show ?thesis using res by blast
qed

lemma chain_seg: "chain h p xs = seg h p xs None"
  by (induction xs arbitrary: p) auto

lemma seg_append: "seg h p (us @ vs) q = (\<exists>r. seg h p us r \<and> seg h r vs q)"
  by (induction us arbitrary: p) auto

lemma seg_snoc: "seg h p (us @ [u]) q = (seg h p us (Some u) \<and> next_p (h u) = q)"
  by (auto simp: seg_append)

lemma seg_cong:
  "(\<And>z. z \<in> set xs \<Longrightarrow> next_p (h' z) = next_p (h z)) \<Longrightarrow> seg h' p xs q = seg h p xs q"
  by (induction xs arbitrary: p) auto

lemma back_links_append:
  "back_links h x (us @ vs) = (back_links h x us \<and> back_links h (last (x # us)) vs)"
  by (induction us arbitrary: x) auto

lemma walk_next_chain:
  "chain h p xs \<Longrightarrow> walk_next h p n = (if n < length xs then Some (xs ! n) else None)"
proof (induction xs arbitrary: p n)
  case Nil
  then show ?case by simp
next
  case (Cons x xs)
  then show ?case by (cases n) auto
qed

lemma insert_item_preserves:
  assumes cl: "child_list h a xs"
    and fresh: "i \<notin> set xs" "i \<noteq> a" "n < length xs \<or> next_p (h i) = None"
  shows "\<exists>h'. insert_item_in_array h a n i = Some (True, h')
            \<and> child_list h' a (take n xs @ i # drop n xs)"
proof (cases "n < length xs")
  case False
  then have "walk_next h (child_p (h a)) n = None"
    using cl walk_next_chain [of h "child_p (h a)" xs n] by (simp add: child_list_def)
  then show ?thesis
    using add_item_preserves [OF cl fresh(1,2)] fresh(3) False
    by (simp add: insert_item_in_array_def)
next
  case True
  define us where "us = take n xs"
  define c where "c = xs ! n"
  define vs where "vs = drop (Suc n) xs"
  have xs: "xs = us @ c # vs"
    using True by (simp add: us_def c_def vs_def id_take_nth_drop)
  have lus: "length us = n" using True by (simp add: us_def)
  have walk: "walk_next h (child_p (h a)) n = Some c"
    using cl walk_next_chain [of h "child_p (h a)" xs n] True by (simp add: child_list_def c_def)
  have dist: "distinct (us @ c # vs)" using cl xs by (simp add: child_list_def)
  have ch: "seg h (child_p (h a)) (us @ c # vs) None"
    using cl xs by (simp add: child_list_def chain_seg)
  have ci: "c \<noteq> i" using fresh xs by auto
  define h3 where "h3 = (h(i := (h i)\<lparr>next_p := Some c, prev_p := prev_p (h c)\<rparr>))
                          (c := (h c)\<lparr>prev_p := Some i\<rparr>)"
  have h3_eq: "(let h1 = h(i := (h i)\<lparr>next_p := Some c\<rparr>);
               h2 = h1(i := (h1 i)\<lparr>prev_p := prev_p (h1 c)\<rparr>)
           in h2(c := (h2 c)\<lparr>prev_p := Some i\<rparr>)) = h3"
    using ci by (simp add: h3_def Let_def)
  have unfold: "insert_item_in_array h a n i =
      (if Some c = child_p (h3 a) then Some (True, h3(a := (h3 a)\<lparr>child_p := Some i\<rparr>))
       else (case prev_p (h3 i) of
               None \<Rightarrow> None
             | Some p \<Rightarrow> Some (True, h3(p := (h3 p)\<lparr>next_p := Some i\<rparr>))))"
    unfolding insert_item_in_array_def walk option.case h3_eq [symmetric] Let_def ..
  show ?thesis
  proof (cases us)
    case Nil
    then have head: "child_p (h a) = Some c" using ch by simp
    have pc: "prev_p (h c) = Some (last (c # vs))"
      and bl: "back_links h c vs"
      using cl xs Nil by (auto simp: child_list_def)
    define h' where "h' = h3(a := (h3 a)\<lparr>child_p := Some i\<rparr>)"
    have nx: "\<And>z. next_p (h' z) = (if z = i then Some c else next_p (h z))"
      using ci by (auto simp: h'_def h3_def)
    have pr: "\<And>z. prev_p (h' z) = (if z = c then Some i else if z = i then prev_p (h c) else prev_p (h z))"
      by (auto simp: h'_def h3_def)
    have cp: "child_p (h' a) = Some i" by (simp add: h'_def)
    have "child_p (h3 a) = Some c" using head by (auto simp: h3_def)
    then have res: "insert_item_in_array h a n i = Some (True, h')"
      by (simp add: unfold h'_def)
    have "seg h' (Some c) (c # vs) None = seg h (Some c) (c # vs) None"
      using fresh xs by (intro seg_cong) (auto simp: nx)
    then have c': "chain h' (Some i) (i # c # vs)"
      using ch Nil head by (simp add: chain_seg nx)
    have "back_links h' c vs = back_links h c vs"
      using dist fresh xs Nil by (intro back_links_cong) (auto simp: pr)
    moreover have "distinct (i # c # vs)" using dist fresh(1) unfolding xs Nil by auto
    ultimately have "child_list h' a (i # c # vs)"
      using c' bl pc ci unfolding child_list_def by (simp add: cp pr)
    moreover have "take n xs @ i # drop n xs = i # c # vs"
      using lus xs Nil by simp
    ultimately show ?thesis using res by simp
  next
    case (Cons x us')
    define u where "u = last us"
    have us_ne: "us \<noteq> []" using Cons by simp
    have us_snoc: "us = butlast us @ [u]" using us_ne by (simp add: u_def)
    have head: "child_p (h a) = Some x" using ch Cons by simp
    have bl: "back_links h x (us' @ c # vs)" and hp: "prev_p (h x) = Some (last (c # vs))"
      using cl xs Cons by (auto simp: child_list_def)
    have pc: "prev_p (h c) = Some u"
      using bl Cons by (simp add: back_links_append u_def)
    have xc: "x \<noteq> c" and xi: "x \<noteq> i" and ui: "u \<noteq> i" and uc: "u \<noteq> c"
      using dist fresh xs Cons us_ne by (auto simp: u_def)
    define h' where "h' = h3(u := (h3 u)\<lparr>next_p := Some i\<rparr>)"
    have nx: "\<And>z. next_p (h' z) = (if z = u then Some i else if z = i then Some c else next_p (h z))"
      using ci by (auto simp: h'_def h3_def)
    have pr: "\<And>z. prev_p (h' z) = (if z = c then Some i else if z = i then Some u else prev_p (h z))"
      using pc by (auto simp: h'_def h3_def)
    have cp: "child_p (h' a) = Some x" using head by (auto simp: h'_def h3_def)
    have "child_p (h3 a) = Some x" using head by (auto simp: h3_def)
    moreover have "prev_p (h3 i) = Some u" using pc ci by (simp add: h3_def)
    ultimately have res: "insert_item_in_array h a n i = Some (True, h')"
      using xc by (simp add: unfold h'_def)
    have s1: "seg h (Some x) (butlast us) (Some u)" and s2: "next_p (h u) = Some c"
      and s3: "seg h (Some c) (c # vs) None"
      using ch head us_snoc by (metis append_assoc seg_append seg_snoc seg.simps(2) append_Cons)+
    have u_nb: "u \<notin> set (butlast us)" using dist us_snoc by (metis distinct_append distinct.simps(2) disjoint_iff list.set_intros(1) distinct_butlast not_distinct_conv_prefix append.right_neutral butlast_snoc)
    have "seg h' (Some x) (butlast us) (Some u) = seg h (Some x) (butlast us) (Some u)"
      using fresh xs u_nb by (intro seg_cong) (auto simp: nx dest: in_set_butlastD)
    moreover have "u \<in> set us" using us_ne by (simp add: u_def)
    then have "u \<notin> set vs" using dist by auto
    then have "seg h' (Some c) (c # vs) None = seg h (Some c) (c # vs) None"
      using fresh xs uc by (intro seg_cong) (auto simp: nx)
    ultimately have "seg h' (Some x) ((butlast us @ [u]) @ i # c # vs) None"
      using s1 s3 ui uc ci by (simp add: seg_append nx)
    then have c': "chain h' (Some x) (us @ i # c # vs)"
      using us_snoc by (simp add: chain_seg)
    have b1: "back_links h x us'" and b2: "back_links h c vs"
      using bl Cons by (auto simp: back_links_append)
    have "back_links h' x us' = back_links h x us'"
      using dist fresh xs Cons by (intro back_links_cong) (auto simp: pr)
    moreover have "back_links h' c vs = back_links h c vs"
      using dist fresh xs by (intro back_links_cong) (auto simp: pr)
    ultimately have b': "back_links h' x (us' @ i # c # vs)"
      using b1 b2 Cons ci by (simp add: back_links_append pr u_def)
    have d': "distinct (us @ i # c # vs)" using dist fresh(1) unfolding xs by auto
    have lp: "prev_p (h' x) = Some (last (us @ i # c # vs))" using hp xc xi by (simp add: pr)
    have "child_list h' a ((x # us') @ i # c # vs)"
      using c' b' d' lp cp unfolding child_list_def Cons by simp
    then have "child_list h' a (us @ i # c # vs)" by (simp only: Cons)
    moreover have "take n xs @ i # drop n xs = us @ i # c # vs"
      using True by (simp add: us_def vs_def c_def Cons_nth_drop_Suc)
    ultimately show ?thesis using res by simp
  qed
qed


lemma seg_head_next: "seg h (Some i) (i # vs) None \<Longrightarrow> next_p (h i) = (case vs of [] \<Rightarrow> None | v # _ \<Rightarrow> Some v)"
  by (cases vs) auto

lemma detach_item_preserves:
  assumes cl: "child_list h a xs" and a: "a \<notin> set xs" and mem: "i \<in> set xs"
  shows "\<exists>h'. stb_json_detachitemviapointer h (Some a) (Some i) = Some (Some i, h')
            \<and> child_list h' a (remove1 i xs) \<and> next_p (h' i) = None \<and> prev_p (h' i) = None"
proof -
  obtain us vs where xs: "xs = us @ i # vs" and ius: "i \<notin> set us"
    using mem by (meson split_list_first)
  have dist: "distinct (us @ i # vs)" using cl xs by (simp add: child_list_def)
  have rem: "remove1 i xs = us @ vs" using xs ius by (simp add: remove1_append)
  have ch: "seg h (child_p (h a)) (us @ i # vs) None"
    using cl xs by (simp add: child_list_def chain_seg)
  have ai: "a \<noteq> i" using a mem by auto
  show ?thesis
  proof (cases us)
    case Nil
    have head: "child_p (h a) = Some i" using ch Nil by simp
    have si: "seg h (Some i) (i # vs) None" using ch Nil by simp
    have pi: "prev_p (h i) = Some (last (i # vs))" and bl: "back_links h i vs"
      using cl xs Nil by (auto simp: child_list_def)
    show ?thesis
    proof (cases vs)
      case Nil': Nil
      have ni: "next_p (h i) = None" using si Nil' by simp
      define h' where "h' = (h(a := (h a)\<lparr>child_p := None\<rparr>))(i := (h i)\<lparr>prev_p := None, next_p := None\<rparr>)"
      have res: "stb_json_detachitemviapointer h (Some a) (Some i) = Some (Some i, h')"
        using head ni ai by (simp add: stb_json_detachitemviapointer_def Let_def h'_def)
      have "child_list h' a []" using ai by (simp add: child_list_def h'_def)
      then show ?thesis using res rem Nil Nil' by (simp add: h'_def)
    next
      case (Cons v vs')
      have ni: "next_p (h i) = Some v" using si Cons by simp
      have vi: "v \<noteq> i" and av: "a \<noteq> v" using dist a xs Cons by auto
      define h' where "h' = ((h(v := (h v)\<lparr>prev_p := prev_p (h i)\<rparr>))
                                (a := (h a)\<lparr>child_p := Some v\<rparr>))
                                (i := (h i)\<lparr>prev_p := None, next_p := None\<rparr>)"
      have res: "stb_json_detachitemviapointer h (Some a) (Some i) = Some (Some i, h')"
        using head ni ai vi av by (simp add: stb_json_detachitemviapointer_def Let_def h'_def)
      have nx: "\<And>z. next_p (h' z) = (if z = i then None else next_p (h z))"
        using ai vi av by (auto simp: h'_def)
      have pr: "\<And>z. prev_p (h' z) = (if z = i then None else if z = v then prev_p (h i) else prev_p (h z))"
        using ai vi av by (auto simp: h'_def)
      have cp: "child_p (h' a) = Some v" using ai by (simp add: h'_def)
      have "seg h' (Some v) (v # vs') None = seg h (Some v) (v # vs') None"
        using dist Cons by (intro seg_cong) (auto simp: nx)
      then have c': "chain h' (Some v) (v # vs')"
        using si Cons by (simp add: chain_seg)
      have "back_links h' v vs' = back_links h v vs'"
        using dist Cons by (intro back_links_cong) (auto simp: pr)
      then have b': "back_links h' v vs'" using bl Cons by simp
      have "child_list h' a (v # vs')"
        using c' b' dist pi Cons vi unfolding child_list_def by (simp add: cp pr)
      then show ?thesis using res rem Nil Cons by (simp add: nx pr)
    qed
  next
    case (Cons x us')
    define u where "u = last us"
    have us_ne: "us \<noteq> []" using Cons by simp
    have us_snoc: "us = butlast us @ [u]" using us_ne by (simp add: u_def)
    have u_in: "u \<in> set us" using us_ne by (simp add: u_def)
    have head: "child_p (h a) = Some x" using ch Cons by simp
    have bl: "back_links h x (us' @ i # vs)" and hp: "prev_p (h x) = Some (last (i # vs))"
      using cl xs Cons by (auto simp: child_list_def)
    have pi: "prev_p (h i) = Some u"
      using bl Cons by (simp add: back_links_append u_def)
    have b1: "back_links h x us'" and b2: "back_links h i vs"
      using bl by (auto simp: back_links_append)
    have xi: "x \<noteq> i" and ui: "u \<noteq> i" and au: "a \<noteq> u" and ax: "a \<noteq> x"
      using dist a xs Cons u_in by auto
    have s1: "seg h (Some x) (butlast us) (Some u)" and s2: "next_p (h u) = Some i"
      and s3: "seg h (Some i) (i # vs) None"
      using ch head us_snoc by (metis append_assoc seg_append seg_snoc seg.simps(2) append_Cons)+
    have u_nb: "u \<notin> set (butlast us)"
      using dist us_snoc by (metis distinct_append distinct1_rotate rotate1.simps(2) distinct.simps(2))
    show ?thesis
    proof (cases vs)
      case Nil
      have ni: "next_p (h i) = None" using s3 Nil by simp
      define h' where "h' = ((h(u := (h u)\<lparr>next_p := None\<rparr>))
                                (x := ((h(u := (h u)\<lparr>next_p := None\<rparr>)) x)\<lparr>prev_p := Some u\<rparr>))
                                (i := (h i)\<lparr>prev_p := None, next_p := None\<rparr>)"
      have res: "stb_json_detachitemviapointer h (Some a) (Some i) = Some (Some i, h')"
        using head ni pi xi ui au ax by (simp add: stb_json_detachitemviapointer_def Let_def h'_def)
      have nx: "\<And>z. next_p (h' z) = (if z = i then None else if z = u then None else next_p (h z))"
        using ui xi by (auto simp: h'_def)
      have pr: "\<And>z. prev_p (h' z) = (if z = i then None else if z = x then Some u else prev_p (h z))"
        using ui xi by (auto simp: h'_def)
      have cp: "child_p (h' a) = Some x" using ai ax au head by (simp add: h'_def)
      have "seg h' (Some x) (butlast us) (Some u) = seg h (Some x) (butlast us) (Some u)"
        using ius u_nb by (intro seg_cong) (auto simp: nx dest: in_set_butlastD)
      then have "seg h' (Some x) (butlast us @ [u]) None"
        using s1 ui by (simp add: seg_snoc nx)
      then have c': "chain h' (Some x) us" using us_snoc by (simp add: chain_seg)
      have "back_links h' x us' = back_links h x us'"
        using dist Cons ius by (intro back_links_cong) (auto simp: pr)
      then have b': "back_links h' x us'" using b1 by simp
      have "child_list h' a (x # us')"
        using c' b' dist Cons unfolding child_list_def by (simp add: cp pr u_def)
      then show ?thesis using res rem Nil Cons by (simp add: nx pr)
    next
      case Cons': (Cons v vs')
      have ni: "next_p (h i) = Some v" using s3 Cons' by simp
      have vi: "v \<noteq> i" and av: "a \<noteq> v" and uv: "u \<noteq> v" and xv: "x \<noteq> v"
        using dist a xs Cons Cons' u_in by auto
      define h' where "h' = ((h(u := (h u)\<lparr>next_p := Some v\<rparr>))
                                (v := (h v)\<lparr>prev_p := Some u\<rparr>))
                                (i := (h i)\<lparr>prev_p := None, next_p := None\<rparr>)"
      have res: "stb_json_detachitemviapointer h (Some a) (Some i) = Some (Some i, h')"
        using head ni pi xi ui au ax vi av uv
        by (simp add: stb_json_detachitemviapointer_def Let_def h'_def)
      have nx: "\<And>z. next_p (h' z) = (if z = i then None else if z = u then Some v else next_p (h z))"
        using ui vi uv by (auto simp: h'_def)
      have pr: "\<And>z. prev_p (h' z) = (if z = i then None else if z = v then Some u else prev_p (h z))"
        using ui vi uv by (auto simp: h'_def)
      have cp: "child_p (h' a) = Some x" using ai av au head by (simp add: h'_def)
      have "seg h' (Some x) (butlast us) (Some u) = seg h (Some x) (butlast us) (Some u)"
        using ius u_nb by (intro seg_cong) (auto simp: nx dest: in_set_butlastD)
      moreover have "u \<notin> set vs" using dist u_in by auto
      then have "seg h' (Some v) (v # vs') None = seg h (Some v) (v # vs') None"
        using dist Cons' by (intro seg_cong) (auto simp: nx)
      ultimately have "seg h' (Some x) ((butlast us @ [u]) @ v # vs') None"
        using s1 s3 ui Cons' by (simp add: seg_append nx)
      then have c': "chain h' (Some x) (us @ vs)" using us_snoc Cons' by (simp add: chain_seg)
      have "back_links h' x us' = back_links h x us'"
        using dist Cons Cons' ius by (intro back_links_cong) (auto simp: pr)
      moreover have "back_links h' v vs' = back_links h v vs'"
        using dist Cons' by (intro back_links_cong) (auto simp: pr)
      ultimately have b': "back_links h' x (us' @ v # vs')"
        using b1 b2 Cons Cons' vi by (simp add: back_links_append pr u_def)
      have d': "distinct (us @ vs)" using dist by auto
      have lp: "prev_p (h' x) = Some (last (us @ vs))" using hp xi xv Cons' by (simp add: pr)
      have "child_list h' a ((x # us') @ v # vs')"
        using c' b' d' lp cp unfolding child_list_def Cons Cons' by simp
      then have "child_list h' a (us @ vs)" by (simp only: Cons Cons')
      then show ?thesis using res rem by (simp add: nx pr)
    qed
  qed
qed

text \<open>
  Claim C9. The mutations of a child list keep its invariant. Let the children of \<open>a\<close> be
  the doubly linked list \<open>xs\<close> whose head's \<^verbatim>\<open>prev\<close> is the tail (the data model's child
  list). Appending a fresh, unlinked node with \<^verbatim>\<open>add_item_to_array\<close>, inserting a fresh
  node at an index with \<^verbatim>\<open>insert_item_in_array\<close>, and detaching a child with
  \<^verbatim>\<open>stb_json_detachitemviapointer\<close> each leave a child list of the same kind (the old
  one with the node appended, inserted or removed), so in the new list, when it is not
  empty, the head's \<^verbatim>\<open>prev\<close> is the tail and the tail's \<^verbatim>\<open>next\<close> is NULL; the detached
  node has both links NULL.
\<close>

theorem child_list_mutations:
  assumes "child_list h a xs" and "a \<notin> set xs"
  shows "(i \<notin> set xs \<and> i \<noteq> a \<and> next_p (h i) = None \<longrightarrow>
            (\<exists>h'. add_item_to_array h (Some a) (Some i) = Some (True, h')
                  \<and> child_list h' a (xs @ [i]) \<and> head_tail_invariant h' a (xs @ [i])))
         \<and> (i \<notin> set xs \<and> i \<noteq> a \<and> (n < length xs \<or> next_p (h i) = None) \<longrightarrow>
            (\<exists>h'. insert_item_in_array h a n i = Some (True, h')
                  \<and> child_list h' a (take n xs @ i # drop n xs)
                  \<and> head_tail_invariant h' a (take n xs @ i # drop n xs)))
         \<and> (i \<in> set xs \<longrightarrow>
            (\<exists>h'. stb_json_detachitemviapointer h (Some a) (Some i) = Some (Some i, h')
                  \<and> child_list h' a (remove1 i xs) \<and> head_tail_invariant h' a (remove1 i xs)
                  \<and> next_p (h' i) = None \<and> prev_p (h' i) = None))"
proof (intro conjI impI)
  assume "i \<notin> set xs \<and> i \<noteq> a \<and> next_p (h i) = None"
  then show "\<exists>h'. add_item_to_array h (Some a) (Some i) = Some (True, h')
                  \<and> child_list h' a (xs @ [i]) \<and> head_tail_invariant h' a (xs @ [i])"
    using add_item_preserves [OF assms(1), of i] child_list_head_tail by blast
next
  assume "i \<notin> set xs \<and> i \<noteq> a \<and> (n < length xs \<or> next_p (h i) = None)"
  then show "\<exists>h'. insert_item_in_array h a n i = Some (True, h')
                  \<and> child_list h' a (take n xs @ i # drop n xs)
                  \<and> head_tail_invariant h' a (take n xs @ i # drop n xs)"
    using insert_item_preserves [OF assms(1), of i n] child_list_head_tail by blast
next
  assume "i \<in> set xs"
  then show "\<exists>h'. stb_json_detachitemviapointer h (Some a) (Some i) = Some (Some i, h')
                  \<and> child_list h' a (remove1 i xs) \<and> head_tail_invariant h' a (remove1 i xs)
                  \<and> next_p (h' i) = None \<and> prev_p (h' i) = None"
    using detach_item_preserves [OF assms, of i] child_list_head_tail by blast
qed

theorem child_list_mutations_witness:
  "child_list example_heap 0 [1, 2]
   \<and> (\<exists>h'. add_item_to_array example_heap (Some 0) (Some 3) = Some (True, h')
           \<and> head_tail_invariant h' 0 [1, 2, 3])
   \<and> (\<exists>h'. insert_item_in_array example_heap 0 1 3 = Some (True, h')
           \<and> head_tail_invariant h' 0 [1, 3, 2])
   \<and> (\<exists>h'. stb_json_detachitemviapointer example_heap (Some 0) (Some 2) = Some (Some 2, h')
           \<and> head_tail_invariant h' 0 [1])"
proof -
  have cl: "child_list example_heap 0 [1, 2]"
    by (simp add: child_list_def example_heap_def)
  have a: "(0::nat) \<notin> set [1, 2]" by simp
  have f: "(3::nat) \<notin> set [1, 2] \<and> (3::nat) \<noteq> 0 \<and> next_p (example_heap 3) = None"
    by (simp add: example_heap_def)
  have m: "(2::nat) \<in> set [1, 2]" by simp
  show ?thesis
    using child_list_mutations [OF cl a, of 3 1] child_list_mutations [OF cl a, of 2 0] cl f m
    by auto
qed


subsection \<open>The test operation of a patch\<close>


















lemma upt_2: "[0..<Suc (Suc 0)] = [0, Suc 0]"
  by (simp add: upt_rec)






subsection \<open>Merge patch\<close>

















text \<open>Detaching from and adding to a list whose first child points to the last.\<close>

lemma last_member_simps [simp]:
  "last_member [] = Prev_null" "xs \<noteq> [] \<Longrightarrow> last_member xs = Prev_member (length xs - 1)"
  by (simp_all add: last_member_def)































text \<open>Every tree that the parser builds is well linked, so the theorem applies to it.\<close>

lemma as_built_well_linked: "well_linked (as_built j)"
  by (induction j rule: as_built.induct) (simp add: list_all_iff)

text \<open>
  Where the first child's \<^verbatim>\<open>prev\<close> is NULL, as \<^verbatim>\<open>sort_list\<close> leaves it when the first child
  changes, \<^verbatim>\<open>add_item_to_array\<close> links nothing: the patch \<^verbatim>\<open>{"c":3}\<close> on the object
  \<^verbatim>\<open>{"b":2,"a":1}\<close> after a sort by key gives \<^verbatim>\<open>{"a":1,"b":2}\<close>, without the new member.
\<close>

lemma merge_patch_after_sort:
  "sort_object True (as_built (Json 64 None 0 (Finite 0) None
       [Json 8 None 2 (Finite 2) (Some ''b'') [], Json 8 None 1 (Finite 1) (Some ''a'') []]))
     = Linked (Json 64 None 0 (Finite 0) None [])
         [Linked (Json 8 None 1 (Finite 1) (Some ''a'') []) [] Prev_null,
          Linked (Json 8 None 2 (Finite 2) (Some ''b'') []) [] Prev_null] Prev_null"
  "merge_patch True
     (Some (Linked (Json 64 None 0 (Finite 0) None [])
         [Linked (Json 8 None 1 (Finite 1) (Some ''a'') []) [] Prev_null,
          Linked (Json 8 None 2 (Finite 2) (Some ''b'') []) [] Prev_null] Prev_null))
     (as_built (Json 64 None 0 (Finite 0) None [Json 8 None 3 (Finite 3) (Some ''c'') []]))
     = Defined (Some (Linked (Json 64 None 0 (Finite 0) None [])
         [Linked (Json 8 None 1 (Finite 1) (Some ''a'') []) [] Prev_null,
          Linked (Json 8 None 2 (Finite 2) (Some ''b'') []) [] Prev_null] Prev_null))"
proof -
  show "sort_object True (as_built (Json 64 None 0 (Finite 0) None
       [Json 8 None 2 (Finite 2) (Some ''b'') [], Json 8 None 1 (Finite 1) (Some ''a'') []]))
     = Linked (Json 64 None 0 (Finite 0) None [])
         [Linked (Json 8 None 1 (Finite 1) (Some ''a'') []) [] Prev_null,
          Linked (Json 8 None 2 (Finite 2) (Some ''b'') []) [] Prev_null] Prev_null"
    by (simp add: sort_object_def upt_2 sort_list.simps compare_strings_def place_def)
next
  show "merge_patch True
     (Some (Linked (Json 64 None 0 (Finite 0) None [])
         [Linked (Json 8 None 1 (Finite 1) (Some ''a'') []) [] Prev_null,
          Linked (Json 8 None 2 (Finite 2) (Some ''b'') []) [] Prev_null] Prev_null))
     (as_built (Json 64 None 0 (Finite 0) None [Json 8 None 3 (Finite 3) (Some ''c'') []]))
     = Defined (Some (Linked (Json 64 None 0 (Finite 0) None [])
         [Linked (Json 8 None 1 (Finite 1) (Some ''a'') []) [] Prev_null,
          Linked (Json 8 None 2 (Finite 2) (Some ''b'') []) [] Prev_null] Prev_null))"
    by (simp add: stb_json_isobject_def stb_json_isnull_def kind_defs coerce_to_object_def
        stb_json_detachitemfromobjectcasesensitive_def detach_item_from_object_def
        stb_json_duplicate_def STB_JSON_CIRCULAR_LIMIT_def stb_json_additemtoobject_def
        append_member_def)
qed

end
